theory Spec2Isabelle
  imports Main "HOL-Library.Multiset" "HOL-Library.Word"
begin

section \<open>Strings of the registry\<close>

text \<open>
  A JavaScript string is modelled as the list of its code units, restricted to the
  code units below 256 (\<^typ>\<open>char\<close> has 256 values, read as Latin-1).
  The helpers below are the string methods and regular expressions the command
  registry uses, each written out as a recursive function on that list.
\<close>

definition is_upper :: "char \<Rightarrow> bool" where
  "is_upper c = (65 \<le> (of_char c :: nat) \<and> (of_char c :: nat) \<le> 90)"

definition is_lower :: "char \<Rightarrow> bool" where
  "is_lower c = (97 \<le> (of_char c :: nat) \<and> (of_char c :: nat) \<le> 122)"

definition is_digit :: "char \<Rightarrow> bool" where
  "is_digit c = (48 \<le> (of_char c :: nat) \<and> (of_char c :: nat) \<le> 57)"

definition is_word_char :: "char \<Rightarrow> bool" where
  \<comment> \<open>the class \<open>\w\<close> of a regular expression without flags\<close>
  "is_word_char c = (is_upper c \<or> is_lower c \<or> is_digit c \<or> c = CHR ''_'')"

definition is_space :: "char \<Rightarrow> bool" where
  \<comment> \<open>the white space \<open>String.prototype.trim\<close> removes, among the code units below 256\<close>
  "is_space c = ((of_char c :: nat) \<in> {9, 10, 11, 12, 13, 32, 160})"

definition lower_char :: "char \<Rightarrow> char" where
  "lower_char c =
     (let n = (of_char c :: nat)
      in if (65 \<le> n \<and> n \<le> 90) \<or> (192 \<le> n \<and> n \<le> 222 \<and> n \<noteq> 215)
         then char_of (n + 32) else c)"

definition toLowerCase :: "string \<Rightarrow> string" where
  "toLowerCase s = map lower_char s"

definition startsWith :: "string \<Rightarrow> string \<Rightarrow> bool" where
  "startsWith s t = (take (length t) s = t)"

definition endsWith :: "string \<Rightarrow> string \<Rightarrow> bool" where
  "endsWith s t = (length t \<le> length s \<and> drop (length s - length t) s = t)"

fun str_includes :: "string \<Rightarrow> string \<Rightarrow> bool" where
  "str_includes [] t = (t = [])"
| "str_includes (c # cs) t = (startsWith (c # cs) t \<or> str_includes cs t)"

definition trim :: "string \<Rightarrow> string" where
  "trim s = rev (dropWhile is_space (rev (dropWhile is_space s)))"

definition strip_suffix :: "string \<Rightarrow> string \<Rightarrow> string" where
  \<comment> \<open>\<open>s.replace(/suf$/, '')\<close> for a literal \<open>suf\<close>\<close>
  "strip_suffix suf s = (if endsWith s suf then take (length s - length suf) s else s)"

fun split_camel :: "string \<Rightarrow> string" where
  \<comment> \<open>\<open>s.replace(/([a-z])([A-Z])/g, '$1 $2')\<close>: a match consumes both characters\<close>
  "split_camel (a # b # rest) =
     (if is_lower a \<and> is_upper b then a # CHR '' '' # b # split_camel rest
      else a # split_camel (b # rest))"
| "split_camel s = s"

function split_acronym :: "string \<Rightarrow> string" where
  \<comment> \<open>\<open>s.replace(/([A-Z]+)([A-Z][a-z])/g, '$1 $2')\<close>: at an upper-case letter the greedy
      group takes the whole run of capitals and gives back the last one; the match needs
      a run of two or more followed by a lower-case letter, and consumes that letter\<close>
  "split_acronym [] = []"
| "split_acronym (c # cs) =
     (let run = takeWhile is_upper (c # cs); rest = dropWhile is_upper (c # cs)
      in if is_upper c \<and> 2 \<le> length run \<and> rest \<noteq> [] \<and> is_lower (hd rest)
         then butlast run @ [CHR '' '', last run, hd rest] @ split_acronym (tl rest)
         else c # split_acronym cs)"
  by pat_completeness auto
termination
proof (relation "measure length")
  show "wf (measure length)" by simp
next
  fix c :: char and cs x xa
  assume "xa = dropWhile is_upper (c # cs)"
  then have "length xa \<le> length (c # cs)"
    using length_dropWhile_le [of is_upper "c # cs"] by simp
  moreover assume "is_upper c \<and> 2 \<le> length x \<and> xa \<noteq> [] \<and> is_lower (hd xa)"
  ultimately show "(tl xa, c # cs) \<in> measure length"
    by (cases xa) auto
next
  fix c :: char and cs x xa
  show "(cs, c # cs) \<in> measure length" by simp
qed

function replace_And :: "bool \<Rightarrow> string \<Rightarrow> string" where
  \<comment> \<open>\<open>s.replace(/\bAnd\b/g, '&')\<close>; the flag says whether the character before the
      position is a word character\<close>
  "replace_And prev [] = []"
| "replace_And prev (c # cs) =
     (if \<not> prev \<and> startsWith (c # cs) ''And'' \<and>
         (case drop 3 (c # cs) of [] \<Rightarrow> True | d # _ \<Rightarrow> \<not> is_word_char d)
      then CHR ''&'' # replace_And True (drop 3 (c # cs))
      else c # replace_And (is_word_char c) cs)"
  by pat_completeness auto
termination
  by (relation "measure (\<lambda>(prev, s). length s)") auto

fun apply_replacements :: "(string \<times> string) list \<Rightarrow> string \<Rightarrow> string" where
  \<comment> \<open>the loop over \<open>Object.entries(replacements)\<close>, leaving at the first exact match\<close>
  "apply_replacements [] s = s"
| "apply_replacements ((from_s, to_s) # rest) s =
     (if s = from_s then to_s else apply_replacements rest s)"

definition replacements :: "(string \<times> string) list" where
  "replacements =
     [(''And'', ''&''),
      (''Energy Saver'', ''Energy Saver''),
      (''Print And Fax'', ''Printers & Fax''),
      (''Print And Scan'', ''Printers & Scanners''),
      (''Sharing Pref'', ''Sharing''),
      (''Expose'', ''Mission Control''),
      (''Universal Access Pref'', ''Accessibility''),
      (''Localization'', ''Language & Region''),
      (''Speech'', ''Siri & Dictation''),
      (''Discs'', ''Discs Handling''),
      (''Apple ID Pref Pane'', ''Apple ID''),
      (''Family Sharing Pref Pane'', ''Family Sharing''),
      (''Class Kit Preference Pane'', ''Classroom''),
      (''Desktop Screen Effects'', ''Desktop & Screen Saver''),
      (''Touch ID'', ''Touch ID & Password''),
      (''Digi Hub'', ''CDs & DVDs'')]"

definition cleanPaneName :: "string \<Rightarrow> string" where
  "cleanPaneName raw =
     (let s = strip_suffix ''IntentsExtension''
               (strip_suffix ''Intents''
                 (strip_suffix ''Extension''
                   (strip_suffix ''Settings''
                     (strip_suffix ''SettingsExtension''
                       (strip_suffix ''.prefPane''
                         (strip_suffix ''Pref'' raw))))));
          s = split_camel s;
          s = split_acronym s;
          s = replace_And False s;
          s = apply_replacements replacements s
      in trim s)"

function slug :: "string \<Rightarrow> string" where
  \<comment> \<open>\<open>key.replace(/[^a-z0-9]+/g, '-')\<close>: every maximal run of other characters
      becomes one hyphen\<close>
  "slug [] = []"
| "slug (c # cs) =
     (if is_lower c \<or> is_digit c then c # slug cs
      else CHR ''-'' # slug (dropWhile (\<lambda>d. \<not> (is_lower d \<or> is_digit d)) cs))"
  by pat_completeness auto
termination
proof (relation "measure length")
  show "wf (measure length)" by simp
next
  fix c :: char and cs
  show "(cs, c # cs) \<in> measure length" by simp
next
  fix c :: char and cs
  show "(dropWhile (\<lambda>d. \<not> (is_lower d \<or> is_digit d)) cs, c # cs) \<in> measure length"
    using length_dropWhile_le [of "\<lambda>d. \<not> (is_lower d \<or> is_digit d)" cs] by simp
qed

definition js_truthy :: "string option \<Rightarrow> bool" where
  \<comment> \<open>truthiness of a value that is a string or \<open>undefined\<close>\<close>
  "js_truthy v = (case v of None \<Rightarrow> False | Some s \<Rightarrow> s \<noteq> [])"

definition js_or :: "string option \<Rightarrow> string option \<Rightarrow> string option" where
  \<comment> \<open>\<open>a || b\<close>\<close>
  "js_or a b = (if js_truthy a then a else b)"

definition if_truthy :: "string option \<Rightarrow> string option" where
  \<comment> \<open>\<open>if (result) return result\<close>: the value when it is returned, \<open>None\<close> when the
      code goes on\<close>
  "if_truthy r = (if js_truthy r then r else None)"

subsection \<open>JSON values\<close>

text \<open>
  What \<open>JSON.parse\<close> can return for a field of a manifest: a string, a number, a
  boolean, an array or an object. A number is given by the string \<open>String(n)\<close> prints
  for it (so zero is \<open>0\<close>); of an object nothing is read. A field that is absent (or
  \<open>null\<close>) is \<open>None\<close>.
\<close>

datatype jvalue = JStr string | JNum string | JBool bool | JArr "jvalue list" | JObj

datatype error = TypeError

fun truthy :: "jvalue \<Rightarrow> bool" where
  "truthy (JStr s) = (s \<noteq> [])"
| "truthy (JNum r) = (r \<noteq> ''0'')"
| "truthy (JBool b) = b"
| "truthy (JArr xs) = True"
| "truthy JObj = True"

definition jv_truthy :: "jvalue option \<Rightarrow> bool" where
  "jv_truthy v = (case v of None \<Rightarrow> False | Some x \<Rightarrow> truthy x)"

definition jv_or :: "jvalue option \<Rightarrow> jvalue option \<Rightarrow> jvalue option" where
  \<comment> \<open>\<open>a || b\<close>\<close>
  "jv_or a b = (if jv_truthy a then a else b)"

fun js_includes :: "jvalue \<Rightarrow> string \<Rightarrow> error + bool" where
  \<comment> \<open>\<open>v.includes(t)\<close>: a method of strings and of arrays; on another value the call
      throws\<close>
  "js_includes (JStr s) t = Inr (str_includes s t)"
| "js_includes (JArr xs) t = Inr (JStr t \<in> set xs)"
| "js_includes v t = Inl TypeError"

fun js_endsWith :: "jvalue \<Rightarrow> string \<Rightarrow> error + bool" where
  \<comment> \<open>\<open>v.endsWith(t)\<close>: a method of strings only\<close>
  "js_endsWith (JStr s) t = Inr (endsWith s t)"
| "js_endsWith v t = Inl TypeError"

fun or_else :: "error + bool \<Rightarrow> error + bool \<Rightarrow> error + bool" where
  \<comment> \<open>\<open>a || b\<close> of two conditions that may throw: \<open>b\<close> is evaluated only when \<open>a\<close> is
      false\<close>
  "or_else (Inl err) b = Inl err"
| "or_else (Inr True) b = Inr True"
| "or_else (Inr False) b = b"

fun join_comma :: "string list \<Rightarrow> string" where
  "join_comma [] = []"
| "join_comma [s] = s"
| "join_comma (s # t # rest) = s @ '','' @ join_comma (t # rest)"

fun js_string :: "jvalue \<Rightarrow> string" where
  \<comment> \<open>the conversion to a string a template literal performs\<close>
  "js_string (JStr s) = s"
| "js_string (JNum r) = r"
| "js_string (JBool b) = (if b then ''true'' else ''false'')"
| "js_string (JArr xs) = join_comma (map js_string xs)"
| "js_string JObj = ''[object Object]''"

subsection \<open>Paths\<close>

text \<open>
  \<open>path.join\<close> and \<open>path.basename\<close> of Node (POSIX). \<open>path.join\<close> joins the non-empty
  arguments with a separator and normalises the result: empty segments and \<open>.\<close> are
  dropped, \<open>..\<close> removes the segment before it (and is kept where a relative path has
  none), a leading and a trailing separator are preserved, and the empty result is
  \<open>.\<close>.
\<close>

fun join_segments :: "string list \<Rightarrow> string" where
  "join_segments [] = []"
| "join_segments [s] = s"
| "join_segments (s # t # rest) = s @ ''/'' @ join_segments (t # rest)"

primrec split_slash :: "string \<Rightarrow> string list" where
  \<comment> \<open>the segments between the separators\<close>
  "split_slash [] = [[]]"
| "split_slash (c # cs) =
     (if c = CHR ''/'' then [] # split_slash cs
      else case split_slash cs of [] \<Rightarrow> [[c]] | s # ss \<Rightarrow> (c # s) # ss)"

definition resolve_step :: "bool \<Rightarrow> string list \<Rightarrow> string \<Rightarrow> string list" where
  \<comment> \<open>one segment of \<open>normalizeString\<close>; the segments kept so far are held last first\<close>
  "resolve_step allowAboveRoot st seg =
     (if seg = [] \<or> seg = ''.'' then st
      else if seg = ''..'' then
        (case st of
           [] \<Rightarrow> if allowAboveRoot then [''..''] else []
         | kept # below \<Rightarrow>
             if kept \<noteq> ''..'' then below
             else if allowAboveRoot then ''..'' # st else st)
      else seg # st)"

definition resolve_dots :: "bool \<Rightarrow> string list \<Rightarrow> string list" where
  "resolve_dots allowAboveRoot segs = rev (foldl (resolve_step allowAboveRoot) [] segs)"

definition path_normalize :: "string \<Rightarrow> string" where
  \<comment> \<open>\<open>path.normalize\<close>\<close>
  "path_normalize p =
     (if p = [] then ''.''
      else
        (let isAbsolute = (hd p = CHR ''/'');
             trailingSeparator = (last p = CHR ''/'');
             body = join_segments (resolve_dots (\<not> isAbsolute) (split_slash p))
         in if body = [] then
              (if isAbsolute then ''/'' else if trailingSeparator then ''./'' else ''.'')
            else (if isAbsolute then ''/'' else []) @ body @
                 (if trailingSeparator then ''/'' else [])))"

definition path_join :: "string list \<Rightarrow> string" where
  "path_join segs =
     (let joined = join_segments (filter (\<lambda>s. s \<noteq> []) segs)
      in if joined = [] then ''.'' else path_normalize joined)"

definition last_segment :: "string \<Rightarrow> string" where
  "last_segment p = rev (takeWhile (\<lambda>c. c \<noteq> CHR ''/'') (rev p))"

definition basename :: "string \<Rightarrow> string \<Rightarrow> string" where
  \<comment> \<open>\<open>path.basename(p, ext)\<close> for a path that does not end in a separator: a last
      segment that is the extension alone is kept whole\<close>
  "basename p ext =
     (if ext \<noteq> [] \<and> p = ext then []
      else let b = last_segment p
           in if ext \<noteq> [] \<and> endsWith b ext \<and> b \<noteq> ext
              then take (length b - length ext) b else b)"

subsection \<open>Base64\<close>

definition b64_alphabet :: string where
  "b64_alphabet = ''ABCDEFGHIJKLMNOPQRSTUVWXYZabcdefghijklmnopqrstuvwxyz0123456789+/''"

definition b64_char :: "nat \<Rightarrow> char" where
  "b64_char n = b64_alphabet ! (n mod 64)"

fun base64 :: "8 word list \<Rightarrow> string" where
  \<comment> \<open>\<open>buf.toString('base64')\<close>\<close>
  "base64 [] = []"
| "base64 [a] =
     (let n = unat a * 65536
      in [b64_char (n div 262144), b64_char (n div 4096), CHR ''='', CHR ''=''])"
| "base64 [a, b] =
     (let n = unat a * 65536 + unat b * 256
      in [b64_char (n div 262144), b64_char (n div 4096), b64_char (n div 64), CHR ''=''])"
| "base64 (a # b # c # rest) =
     (let n = unat a * 65536 + unat b * 256 + unat c
      in [b64_char (n div 262144), b64_char (n div 4096), b64_char (n div 64), b64_char n]
         @ base64 rest)"

section \<open>Data model and environment\<close>

datatype category = App | Settings | System

record CommandInfo =
  cmd_id :: string
  title :: string
  cmd_keywords :: "string list option"
  iconDataUrl :: "string option"
  category :: category
  path :: "jvalue option"

text \<open>
  The fields of a bundle's \<open>Info.plist\<close> the registry reads, as \<open>JSON.parse\<close> returns
  them (\<open>Record<string, any>\<close>): any JSON value, or absent. The target \<open>path\<close> of an
  entry is declared a string, but the settings scan stores the manifest's identifier
  there unchecked, so it is a JSON value too. A parsed manifest that is not an object
  has none of the fields.
\<close>

record plist =
  CFBundleIconFile :: "jvalue option"
  CFBundleIconName :: "jvalue option"
  CFBundleDisplayName :: "jvalue option"
  CFBundleName :: "jvalue option"
  CFBundleIdentifier :: "jvalue option"

text \<open>
  The collaborators of the registry, as the answers they give during one call:
  \<^item> \<open>existsSync\<close>, \<open>readdirSync\<close> (\<open>None\<close> when it throws);
  \<^item> \<open>plutil\<close>: the parsed output of \<open>plutil -convert json\<close> on a manifest path, \<open>None\<close>
    when the process fails or \<open>JSON.parse\<close> throws;
  \<^item> \<open>sips\<close>: the bytes read back from the temporary PNG after \<open>sips\<close> converted an
    \<open>.icns\<close> file, \<open>None\<close> when the conversion, the read or the unlink throws (the
    temporary file, named by the counter \<open>iconCounter\<close>, is unlinked on both paths and is
    not modelled);
  \<^item> \<open>getFileIcon\<close>: the data URL of Electron's icon for a path, \<open>None\<close> when the call
    throws or the icon is empty;
  \<^item> \<open>exec_open\<close>: whether the process of an \<open>open ...\<close> command line ends without
    error;
  \<^item> \<open>HOME\<close>: the environment variable;
  \<^item> \<open>localeCompare\<close>: the comparison of the JavaScript runtime (locale dependent);
  \<^item> \<open>plistDone\<close>: the time at which the asynchronous manifest read of an extension
    completes. Within a batch the reads run concurrently, and the code after the
    \<open>await\<close> runs in the order of their completion.
\<close>

record env =
  existsSync :: "string \<Rightarrow> bool"
  readdirSync :: "string \<Rightarrow> string list option"
  plutil :: "string \<Rightarrow> plist option"
  sips :: "string \<Rightarrow> 8 word list option"
  getFileIcon :: "string \<Rightarrow> string option"
  exec_open :: "string \<Rightarrow> bool"
  HOME :: "string option"
  localeCompare :: "string \<Rightarrow> string \<Rightarrow> int"
  plistDone :: "string \<Rightarrow> nat"

section \<open>Helpers\<close>

definition icnsToPngDataUrl :: "env \<Rightarrow> string \<Rightarrow> string option" where
  "icnsToPngDataUrl e icnsPath =
     (case sips e icnsPath of
        None \<Rightarrow> None
      | Some pngBuf \<Rightarrow>
          if 100 < length pngBuf then Some (''data:image/png;base64,'' @ base64 pngBuf)
          else None)"

definition icon_step1 :: "env \<Rightarrow> string \<Rightarrow> string option" where
  \<comment> \<open>Step 1: \<open>CFBundleIconFile\<close> / \<open>CFBundleIconName\<close> from \<open>Info.plist\<close>; a name that is
      falsy is skipped, and one that is not a string makes \<open>path.join\<close> throw inside the
      \<open>try\<close>\<close>
  "icon_step1 e bundlePath =
     (let resourcesDir = path_join [bundlePath, ''Contents'', ''Resources''];
          plistPath = path_join [bundlePath, ''Contents'', ''Info.plist'']
      in if existsSync e plistPath then
           (case plutil e plistPath of
              None \<Rightarrow> None
            | Some info \<Rightarrow>
                (case jv_or (CFBundleIconFile info) (CFBundleIconName info) of
                   Some (JStr iconFileName) \<Rightarrow>
                     if iconFileName = [] then None
                     else
                       (let icnsPath0 = path_join [resourcesDir, iconFileName];
                            icnsPath =
                              (if \<not> existsSync e icnsPath0 \<and> \<not> endsWith iconFileName ''.icns''
                               then path_join [resourcesDir, iconFileName @ ''.icns'']
                               else icnsPath0)
                        in if existsSync e icnsPath
                           then if_truthy (icnsToPngDataUrl e icnsPath) else None)
                 | _ \<Rightarrow> None))
         else None)"

definition priorityNames :: "string list" where
  "priorityNames = [''icon.icns'', ''AppIcon.icns'', ''SharedAppIcon.icns'']"

fun try_priority :: "env \<Rightarrow> string \<Rightarrow> string list \<Rightarrow> string list \<Rightarrow> string option" where
  "try_priority e resourcesDir files [] = None"
| "try_priority e resourcesDir files (name # names) =
     (if name \<in> set files then
        (case if_truthy (icnsToPngDataUrl e (path_join [resourcesDir, name])) of
           Some r \<Rightarrow> Some r
         | None \<Rightarrow> try_priority e resourcesDir files names)
      else try_priority e resourcesDir files names)"

definition icon_step2 :: "env \<Rightarrow> string \<Rightarrow> string option" where
  \<comment> \<open>Step 2: common icon file names in \<open>Contents/Resources\<close>, then any \<open>.icns\<close> file\<close>
  "icon_step2 e bundlePath =
     (let resourcesDir = path_join [bundlePath, ''Contents'', ''Resources'']
      in if existsSync e resourcesDir then
           (case readdirSync e resourcesDir of
              None \<Rightarrow> None
            | Some files \<Rightarrow>
                (case try_priority e resourcesDir files priorityNames of
                   Some r \<Rightarrow> Some r
                 | None \<Rightarrow>
                     (case find (\<lambda>f. endsWith f ''.icns'') files of
                        None \<Rightarrow> None
                      | Some anyIcns \<Rightarrow>
                          if anyIcns = [] then None
                          else if_truthy
                                 (icnsToPngDataUrl e (path_join [resourcesDir, anyIcns])))))
         else None)"

definition icon_step3 :: "env \<Rightarrow> string \<Rightarrow> string option" where
  \<comment> \<open>Step 3: \<open>app.getFileIcon\<close>\<close>
  "icon_step3 e bundlePath = getFileIcon e bundlePath"

definition getIconDataUrl :: "env \<Rightarrow> string \<Rightarrow> string option" where
  "getIconDataUrl e bundlePath =
     (case icon_step1 e bundlePath of
        Some r \<Rightarrow> Some r
      | None \<Rightarrow>
          (case icon_step2 e bundlePath of
             Some r \<Rightarrow> Some r
           | None \<Rightarrow> icon_step3 e bundlePath))"

definition readPlistJson :: "env \<Rightarrow> string \<Rightarrow> plist option" where
  "readPlistJson e bundlePath =
     (let plistPath = path_join [bundlePath, ''Contents'', ''Info.plist'']
      in if \<not> existsSync e plistPath then None else plutil e plistPath)"

section \<open>Discovery\<close>

definition BATCH :: nat where
  "BATCH = 15"

function batches :: "'a list \<Rightarrow> 'a list list" where
  \<comment> \<open>the slices \<open>xs.slice(i, i + BATCH)\<close> for \<open>i = 0, BATCH, ...\<close>\<close>
  "batches xs = (if xs = [] then [] else take BATCH xs # batches (drop BATCH xs))"
  by pat_completeness auto
termination
  by (relation "measure length") (auto simp: BATCH_def)

declare batches.simps [simp del]

fun non_null :: "'a option list \<Rightarrow> 'a list" where
  \<comment> \<open>\<open>for (const item of items) if (item) results.push(item)\<close>\<close>
  "non_null [] = []"
| "non_null (None # xs) = non_null xs"
| "non_null (Some x # xs) = x # non_null xs"

text \<open>
  The body of \<open>batch.map(async ...)\<close> runs, for each item in turn, up to its first
  \<open>await\<close>; the set \<open>seen\<close> is read and written in one such stretch. \<open>run_items\<close>
  threads the set through the items in the order given.
\<close>

fun run_items ::
  "('a \<Rightarrow> string set \<Rightarrow> 'b option \<times> string set) \<Rightarrow> 'a list \<Rightarrow> string set
     \<Rightarrow> 'b option list \<times> string set" where
  "run_items f [] seen = ([], seen)"
| "run_items f (x # xs) seen =
     (let (r, seen1) = f x seen; (rs, seen2) = run_items f xs seen1 in (r # rs, seen2))"

text \<open>
  The loop \<open>for (let i = 0; i < xs.length; i += BATCH)\<close>, which all three scans
  share: the items of a batch are run together (\<open>Promise.all\<close>), the batches one after
  the other, and the results that are not \<open>null\<close> are appended in the order of the batch.
\<close>

fun batch_loop ::
  "('a list \<Rightarrow> string set \<Rightarrow> CommandInfo option list \<times> string set) \<Rightarrow> 'a list list
     \<Rightarrow> CommandInfo list \<times> string set \<Rightarrow> CommandInfo list \<times> string set" where
  "batch_loop run [] (results, seen) = (results, seen)"
| "batch_loop run (batch # bs) (results, seen) =
     (let (items, seen1) = run batch seen
      in batch_loop run bs (results @ non_null items, seen1))"

text \<open>
  The items of the extension source can throw (there is no \<open>try\<close> in their body). The
  promise of \<open>Promise.all\<close> is then rejected, and with it the scan; what the other items
  of the batch still do to \<open>seen\<close> is lost with the scan.
\<close>

fun run_items_err ::
  "('a \<Rightarrow> string set \<Rightarrow> error + 'b option \<times> string set) \<Rightarrow> 'a list \<Rightarrow> string set
     \<Rightarrow> error + 'b option list \<times> string set" where
  "run_items_err f [] seen = Inr ([], seen)"
| "run_items_err f (x # xs) seen =
     (case f x seen of
        Inl err \<Rightarrow> Inl err
      | Inr (r, seen1) \<Rightarrow>
          (case run_items_err f xs seen1 of
             Inl err \<Rightarrow> Inl err
           | Inr (rs, seen2) \<Rightarrow> Inr (r # rs, seen2)))"

fun batch_loop_err ::
  "('a list \<Rightarrow> string set \<Rightarrow> error + CommandInfo option list \<times> string set) \<Rightarrow> 'a list list
     \<Rightarrow> CommandInfo list \<times> string set \<Rightarrow> error + CommandInfo list \<times> string set" where
  "batch_loop_err run [] (results, seen) = Inr (results, seen)"
| "batch_loop_err run (batch # bs) (results, seen) =
     (case run batch seen of
        Inl err \<Rightarrow> Inl err
      | Inr (items, seen1) \<Rightarrow> batch_loop_err run bs (results @ non_null items, seen1))"

subsection \<open>Applications\<close>

definition appDirs :: "env \<Rightarrow> string list" where
  "appDirs e =
     [''/Applications'',
      ''/System/Applications'',
      ''/System/Applications/Utilities'',
      path_join [(case HOME e of None \<Rightarrow> [] | Some h \<Rightarrow> h), ''Applications'']]"

definition app_entry :: "env \<Rightarrow> string \<Rightarrow> CommandInfo" where
  \<comment> \<open>the object literal \<open>discoverApplications\<close> returns for a bundle path\<close>
  "app_entry e appPath =
     (let name = basename appPath ''.app'';
          key = toLowerCase name
      in \<lparr> cmd_id = ''app-'' @ slug key,
           title = name,
           cmd_keywords = Some [key],
           iconDataUrl = getIconDataUrl e appPath,
           category = App,
           path = Some (JStr appPath) \<rparr>)"

definition app_item :: "env \<Rightarrow> string \<Rightarrow> string set \<Rightarrow> CommandInfo option \<times> string set" where
  "app_item e appPath seen =
     (let name = basename appPath ''.app'';
          key = toLowerCase name
      in if key \<in> seen then (None, seen)
         else (Some (app_entry e appPath), insert key seen))"

definition app_dir ::
  "env \<Rightarrow> string \<Rightarrow> CommandInfo list \<times> string set \<Rightarrow> CommandInfo list \<times> string set" where
  \<comment> \<open>the body of \<open>for (const dir of appDirs)\<close>\<close>
  "app_dir e dir st =
     (if \<not> existsSync e dir then st
      else case readdirSync e dir of
             None \<Rightarrow> st
           | Some entries \<Rightarrow>
               (let appPaths = map (\<lambda>entry. path_join [dir, entry])
                                 (filter (\<lambda>entry. endsWith entry ''.app'') entries)
                in batch_loop (run_items (app_item e)) (batches appPaths) st))"

primrec app_dirs_loop ::
  "env \<Rightarrow> string list \<Rightarrow> CommandInfo list \<times> string set \<Rightarrow> CommandInfo list \<times> string set" where
  "app_dirs_loop e [] st = st"
| "app_dirs_loop e (dir # dirs) st = app_dirs_loop e dirs (app_dir e dir st)"

definition discoverApplications :: "env \<Rightarrow> CommandInfo list" where
  "discoverApplications e = fst (app_dirs_loop e (appDirs e) ([], {}))"

subsection \<open>System Settings\<close>

fun first_icon :: "env \<Rightarrow> string list \<Rightarrow> string option" where
  \<comment> \<open>the icon of the first settings application that exists\<close>
  "first_icon e [] = None"
| "first_icon e (p # ps) = (if existsSync e p then getIconDataUrl e p else first_icon e ps)"

definition settingsIconDataUrl :: "env \<Rightarrow> string option" where
  "settingsIconDataUrl e =
     first_icon e [''/System/Applications/System Settings.app'',
                   ''/System/Applications/System Preferences.app'']"

definition extDir :: string where
  "extDir = ''/System/Library/ExtensionKit/Extensions''"

definition knownExtensions :: "string list" where
  "knownExtensions =
     [''Bluetooth.appex'',
      ''Appearance.appex'',
      ''PowerPreferences.appex'',
      ''Network.appex'',
      ''Screen Saver.appex'',
      ''Wallpaper.appex'',
      ''StartupDisk.appex'',
      ''Computer Name.appex'',
      ''CDs & DVDs Settings Extension.appex'',
      ''FamilySettings.appex'',
      ''ClassKitSettings.appex'',
      ''ClassroomSettings.appex'',
      ''CoverageSettings.appex'',
      ''DesktopSettings.appex'']"

fun uniq :: "'a list \<Rightarrow> 'a list" where
  \<comment> \<open>\<open>[...new Set(xs)]\<close>: the first occurrence of every element, in order\<close>
  "uniq [] = []"
| "uniq (x # xs) = x # uniq (filter (\<lambda>y. y \<noteq> x) xs)"

definition allAppex :: "string list \<Rightarrow> string list" where
  "allAppex files =
     (let appexFiles =
            filter (\<lambda>f. endsWith f ''.appex'' \<and>
                         (str_includes (toLowerCase f) ''settings'' \<or>
                          str_includes (toLowerCase f) ''preference'' \<or>
                          str_includes (toLowerCase f) ''pref'')) files;
          knownSettingsExt = filter (\<lambda>f. f \<in> set knownExtensions) files
      in uniq (appexFiles @ knownSettingsExt))"

definition settings_entry :: "string \<Rightarrow> string \<Rightarrow> string option \<Rightarrow> jvalue \<Rightarrow> CommandInfo" where
  \<comment> \<open>the object literal both sources return\<close>
  "settings_entry key displayName icon target =
     \<lparr> cmd_id = ''settings-'' @ slug key,
       title = displayName,
       cmd_keywords = Some [''system settings'', ''preferences'', key],
       iconDataUrl = icon,
       category = Settings,
       path = Some target \<rparr>"

definition appex_item ::
  "env \<Rightarrow> string option \<Rightarrow> string \<Rightarrow> string set \<Rightarrow> error + CommandInfo option \<times> string set" where
  \<comment> \<open>the body of \<open>batch.map(async (file) => ...)\<close>. A display name that passed
      \<open>endsWith\<close> is a string\<close>
  "appex_item e settingsIcon file seen =
     (let extPath = path_join [extDir, file]
      in case readPlistJson e extPath of
           None \<Rightarrow> Inr (None, seen)
         | Some info \<Rightarrow>
             (let displayName0 =
                    (case jv_or (jv_or (CFBundleDisplayName info) (CFBundleName info))
                            (Some (JStr []))
                     of None \<Rightarrow> JStr [] | Some n \<Rightarrow> n);
                  bundleId =
                    (case jv_or (CFBundleIdentifier info) (Some (JStr []))
                     of None \<Rightarrow> JStr [] | Some b \<Rightarrow> b)
              in case or_else (Inr (\<not> truthy displayName0))
                      (or_else (js_includes displayName0 ''Intents'')
                        (or_else (js_includes displayName0 ''Widget'')
                          (or_else (js_endsWith displayName0 ''DeviceExpert'')
                            (or_else (js_includes bundleId ''intents'')
                                     (js_includes bundleId ''widget'')))))
                 of Inl err \<Rightarrow> Inl err
                  | Inr True \<Rightarrow> Inr (None, seen)
                  | Inr False \<Rightarrow>
                      (case displayName0 of
                         JStr name0 \<Rightarrow>
                           (let displayName =
                                  (if str_includes name0 ''Extension'' \<or>
                                      str_includes name0 ''Settings''
                                   then cleanPaneName name0 else name0)
                            in if displayName = [] \<or> length displayName < 2
                               then Inr (None, seen)
                               else
                                 (let key = toLowerCase displayName
                                  in if key \<in> seen then Inr (None, seen)
                                     else Inr (Some (settings_entry key displayName
                                                       (js_or (getIconDataUrl e extPath)
                                                              settingsIcon)
                                                       bundleId),
                                               insert key seen)))
                       | _ \<Rightarrow> Inl TypeError)))"

definition appex_batch ::
  "env \<Rightarrow> string option \<Rightarrow> string list \<Rightarrow> string set
     \<Rightarrow> error + CommandInfo option list \<times> string set" where
  \<comment> \<open>\<open>Promise.all(batch.map(...))\<close> of the extension source: every item first awaits its
      manifest, so the items reach the check of \<open>seen\<close> in the order in which the
      reads complete; the array of results is in the order of the batch\<close>
  "appex_batch e settingsIcon batch seen =
     (let order = sort_key (plistDone e) batch
      in case run_items_err (appex_item e settingsIcon) order seen of
           Inl err \<Rightarrow> Inl err
         | Inr (rs, seen1) \<Rightarrow>
             (let done = zip order rs
              in Inr (map (\<lambda>file. case map_of done file of None \<Rightarrow> None | Some item \<Rightarrow> item)
                        batch,
                      seen1)))"

definition appex_source ::
  "env \<Rightarrow> string option \<Rightarrow> CommandInfo list \<times> string set
     \<Rightarrow> error + CommandInfo list \<times> string set" where
  \<comment> \<open>Source 1: \<open>.appex\<close> extensions\<close>
  "appex_source e settingsIcon st =
     (if existsSync e extDir then
        (let files = (case readdirSync e extDir of None \<Rightarrow> [] | Some fs \<Rightarrow> fs)
         in batch_loop_err (appex_batch e settingsIcon) (batches (allAppex files)) st)
      else Inr st)"

definition prefDirs :: "env \<Rightarrow> string list" where
  "prefDirs e =
     [''/System/Library/PreferencePanes'',
      ''/Library/PreferencePanes'',
      path_join [(case HOME e of None \<Rightarrow> [] | Some h \<Rightarrow> h), ''Library'', ''PreferencePanes'']]"

definition pane_item ::
  "env \<Rightarrow> string option \<Rightarrow> string \<Rightarrow> string set \<Rightarrow> CommandInfo option \<times> string set" where
  "pane_item e settingsIcon panePath seen =
     (let rawName = basename panePath ''.prefPane'';
          displayName = cleanPaneName rawName;
          key = toLowerCase displayName
      in if key \<in> seen then (None, seen)
         else (Some (settings_entry key displayName
                       (js_or (getIconDataUrl e panePath) settingsIcon) (JStr rawName)),
               insert key seen))"

definition pane_dir ::
  "env \<Rightarrow> string option \<Rightarrow> string \<Rightarrow> CommandInfo list \<times> string set
     \<Rightarrow> CommandInfo list \<times> string set" where
  \<comment> \<open>the body of \<open>for (const dir of prefDirs)\<close>\<close>
  "pane_dir e settingsIcon dir st =
     (if \<not> existsSync e dir then st
      else case readdirSync e dir of
             None \<Rightarrow> st
           | Some entries \<Rightarrow>
               (let panePaths = map (\<lambda>entry. path_join [dir, entry])
                                  (filter (\<lambda>entry. endsWith entry ''.prefPane'') entries)
                in batch_loop (run_items (pane_item e settingsIcon)) (batches panePaths) st))"

primrec pane_dirs_loop ::
  "env \<Rightarrow> string option \<Rightarrow> string list \<Rightarrow> CommandInfo list \<times> string set
     \<Rightarrow> CommandInfo list \<times> string set" where
  \<comment> \<open>Source 2: \<open>.prefPane\<close> bundles\<close>
  "pane_dirs_loop e settingsIcon [] st = st"
| "pane_dirs_loop e settingsIcon (dir # dirs) st =
     pane_dirs_loop e settingsIcon dirs (pane_dir e settingsIcon dir st)"

definition discoverSystemSettings :: "env \<Rightarrow> error + CommandInfo list" where
  "discoverSystemSettings e =
     (let settingsIcon = settingsIconDataUrl e
      in case appex_source e settingsIcon ([], {}) of
           Inl err \<Rightarrow> Inl err
         | Inr st1 \<Rightarrow> Inr (fst (pane_dirs_loop e settingsIcon (prefDirs e) st1)))"

definition extension_entries :: "env \<Rightarrow> error + CommandInfo list" where
  \<comment> \<open>what \<open>results\<close> holds when Source 1 is through\<close>
  "extension_entries e =
     (case appex_source e (settingsIconDataUrl e) ([], {}) of
        Inl err \<Rightarrow> Inl err
      | Inr st1 \<Rightarrow> Inr (fst st1))"

definition entry_key :: "CommandInfo \<Rightarrow> string" where
  \<comment> \<open>the key under which an entry was entered into \<open>seen\<close>: its title in lower case\<close>
  "entry_key c = toLowerCase (title c)"

section \<open>Cache and execution\<close>

text \<open>
  The module state: the cache slot and its time stamp, and the trace of what the
  public functions do to the outside: the \<open>open\<close> command lines they run, the
  console lines they write, and \<open>app.quit()\<close>. The probes of a discovery run (existence
  checks, directory listings, manifest and icon conversions) are answered by the
  environment and leave no entry.
\<close>

datatype event =
    Exec string
  | AppQuit
  | LogDiscovering
  | LogDiscovered nat nat
  | ErrNotFound string
  | ErrFailed string
  | ErrSettings

record registry =
  cachedCommands :: "CommandInfo list option"
  cacheTimestamp :: int
  trace :: "event list"

definition initial :: registry where
  \<comment> \<open>the module as loaded, and the cache after \<open>invalidateCache\<close>\<close>
  "initial = \<lparr> cachedCommands = None, cacheTimestamp = 0, trace = [] \<rparr>"

definition CACHE_TTL :: int where
  "CACHE_TTL = 120000"

definition emit :: "event \<Rightarrow> registry \<Rightarrow> registry" where
  "emit ev s = s\<lparr> trace := trace s @ [ev] \<rparr>"

definition execAsync :: "env \<Rightarrow> string \<Rightarrow> registry \<Rightarrow> bool \<times> registry" where
  \<comment> \<open>runs a command line; \<open>False\<close> is the rejected promise\<close>
  "execAsync e cmd s = (exec_open e cmd, emit (Exec cmd) s)"

definition openAppByPath :: "env \<Rightarrow> jvalue \<Rightarrow> registry \<Rightarrow> bool \<times> registry" where
  "openAppByPath e appPath s = execAsync e (''open \"'' @ js_string appPath @ ''\"'') s"

definition open_chain :: "env \<Rightarrow> string \<Rightarrow> registry \<Rightarrow> registry" where
  \<comment> \<open>\<open>openSettingsPane\<close> on a string: every attempt is caught, the last one logged\<close>
  "open_chain e identifier s =
     (let (ok1, s1) =
            (if startsWith identifier ''com.apple.''
             then execAsync e (''open \"x-apple.systempreferences:'' @ identifier @ ''\"'') s
             else (False, s))
      in if ok1 then s1
         else
           (let (ok2, s2) =
                  execAsync e (''open \"x-apple.systempreferences:com.apple.settings.''
                               @ identifier @ ''\"'') s1
            in if ok2 then s2
               else
                 (let (ok3, s3) =
                        execAsync e (''open \"x-apple.systempreferences:com.apple.preference.''
                                     @ toLowerCase identifier @ ''\"'') s2
                  in if ok3 then s3
                     else
                       (let (ok4, s4) = execAsync e ''open -a \"System Settings\"'' s3
                        in if ok4 then s4
                           else
                             (let (ok5, s5) = execAsync e ''open -a \"System Preferences\"'' s4
                              in if ok5 then s5 else emit ErrSettings s5)))))"

definition openSettingsPane :: "env \<Rightarrow> jvalue \<Rightarrow> registry \<Rightarrow> error option \<times> registry" where
  \<comment> \<open>\<open>Some\<close> is the rejected promise: \<open>identifier.startsWith\<close>, which stands before the
      first \<open>try\<close>, throws on a value that is not a string\<close>
  "openSettingsPane e identifier s =
     (case identifier of
        JStr ident \<Rightarrow> (None, open_chain e ident s)
      | _ \<Rightarrow> (Some TypeError, s))"

fun insort_cmp :: "('a \<Rightarrow> 'a \<Rightarrow> int) \<Rightarrow> 'a \<Rightarrow> 'a list \<Rightarrow> 'a list" where
  "insort_cmp cmp x [] = [x]"
| "insort_cmp cmp x (y # ys) = (if cmp x y \<le> 0 then x # y # ys else y # insort_cmp cmp x ys)"

definition js_sort :: "('a \<Rightarrow> 'a \<Rightarrow> int) \<Rightarrow> 'a list \<Rightarrow> 'a list" where
  \<comment> \<open>\<open>xs.sort(cmp)\<close>: the sort of the runtime is stable, so for a consistent comparison
      its result is the one of this insertion sort\<close>
  "js_sort cmp xs = foldr (insort_cmp cmp) xs []"

definition sort_by_title :: "env \<Rightarrow> CommandInfo list \<Rightarrow> CommandInfo list" where
  \<comment> \<open>\<open>xs.sort((a, b) => a.title.localeCompare(b.title))\<close>\<close>
  "sort_by_title e xs = js_sort (\<lambda>a b. localeCompare e (title a) (title b)) xs"

definition systemCommands :: "CommandInfo list" where
  "systemCommands =
     [\<lparr> cmd_id = ''system-quit-launcher'',
        title = ''Quit Launcher'',
        cmd_keywords = Some [''exit'', ''close'', ''quit'', ''stop''],
        iconDataUrl = None,
        category = System,
        path = None \<rparr>]"

definition rebuild :: "env \<Rightarrow> int \<Rightarrow> registry \<Rightarrow> (error + CommandInfo list) \<times> registry" where
  \<comment> \<open>\<open>getAvailableCommands\<close> after the test of the cache; when a scan throws, the
      promise is rejected before the cache is written\<close>
  "rebuild e now s =
     (let s1 = emit LogDiscovering s
      in case discoverSystemSettings e of
           Inl err \<Rightarrow> (Inl err, s1)
         | Inr found \<Rightarrow>
             (let apps = sort_by_title e (discoverApplications e);
                  settings = sort_by_title e found;
                  commands = apps @ settings @ systemCommands;
                  s2 = s1\<lparr> cachedCommands := Some commands, cacheTimestamp := now \<rparr>
              in (Inr commands, emit (LogDiscovered (length apps) (length settings)) s2)))"

definition getAvailableCommands ::
  "env \<Rightarrow> int \<Rightarrow> registry \<Rightarrow> (error + CommandInfo list) \<times> registry" where
  \<comment> \<open>\<open>now\<close> is the value of \<open>Date.now()\<close> the call reads\<close>
  "getAvailableCommands e now s =
     (case cachedCommands s of
        Some commands \<Rightarrow>
          if now - cacheTimestamp s < CACHE_TTL then (Inr commands, s) else rebuild e now s
      | None \<Rightarrow> rebuild e now s)"

definition dispatch :: "env \<Rightarrow> string \<Rightarrow> CommandInfo list \<Rightarrow> registry \<Rightarrow> bool \<times> registry" where
  \<comment> \<open>\<open>executeCommand\<close> from \<open>commands.find\<close> on\<close>
  "dispatch e ident commands s1 =
     (case find (\<lambda>c. cmd_id c = ident) commands of
        None \<Rightarrow> (False, emit (ErrNotFound ident) s1)
      | Some command \<Rightarrow>
          (case path command of
             None \<Rightarrow> (False, emit (ErrNotFound ident) s1)
           | Some target \<Rightarrow>
               if \<not> truthy target then (False, emit (ErrNotFound ident) s1)
               else if category command = App then
                 (let (ok, s2) = openAppByPath e target s1
                  in if ok then (True, s2) else (False, emit (ErrFailed ident) s2))
               else if category command = Settings then
                 (case openSettingsPane e target s1 of
                    (None, s2) \<Rightarrow> (True, s2)
                  | (Some err, s2) \<Rightarrow> (False, emit (ErrFailed ident) s2))
               else (True, s1)))"

definition executeCommand :: "env \<Rightarrow> int \<Rightarrow> registry \<Rightarrow> string \<Rightarrow> (error + bool) \<times> registry" where
  \<comment> \<open>\<open>await getAvailableCommands()\<close> stands before the \<open>try\<close>: when it is rejected, so is
      \<open>executeCommand\<close>\<close>
  "executeCommand e now s ident =
     (if ident = ''system-quit-launcher'' then (Inr True, emit AppQuit s)
      else
        (case getAvailableCommands e now s of
           (Inl err, s1) \<Rightarrow> (Inl err, s1)
         | (Inr commands, s1) \<Rightarrow>
             (let (result, s2) = dispatch e ident commands s1 in (Inr result, s2))))"

definition invalidateCache :: "registry \<Rightarrow> registry" where
  "invalidateCache s = s\<lparr> cachedCommands := None, cacheTimestamp := 0 \<rparr>"




section \<open>Concrete environments\<close>

text \<open>
  Small file systems on which the theorems below are instantiated. The comparison of
  titles they use is the one by code units.
\<close>

fun code_unit_compare :: "string \<Rightarrow> string \<Rightarrow> int" where
  "code_unit_compare [] [] = 0"
| "code_unit_compare [] (b # bs) = -1"
| "code_unit_compare (a # as) [] = 1"
| "code_unit_compare (a # as) (b # bs) =
     (if (of_char a :: nat) < of_char b then -1
      else if (of_char b :: nat) < of_char a then 1
      else code_unit_compare as bs)"

definition bare_env :: env where
  "bare_env =
     \<lparr> existsSync = (\<lambda>p. False),
       readdirSync = (\<lambda>p. None),
       plutil = (\<lambda>p. None),
       sips = (\<lambda>p. None),
       getFileIcon = (\<lambda>p. None),
       exec_open = (\<lambda>cmd. False),
       HOME = None,
       localeCompare = code_unit_compare,
       plistDone = (\<lambda>file. 0) \<rparr>"

definition pane_env :: env where
  "pane_env =
     bare_env\<lparr> existsSync := (\<lambda>p. p = ''/Library/PreferencePanes''),
               readdirSync := (\<lambda>p. if p = ''/Library/PreferencePanes''
                                      then Some [''Foo.prefPane''] else None) \<rparr>"

definition noid_env :: env where
  "noid_env =
     bare_env\<lparr> existsSync := (\<lambda>p. p = extDir \<or>
                       p = ''/System/Library/ExtensionKit/Extensions/FooSettings.appex/Contents/Info.plist''),
               readdirSync := (\<lambda>p. if p = extDir then Some [''FooSettings.appex''] else None),
               plutil := (\<lambda>p. Some \<lparr> CFBundleIconFile = None, CFBundleIconName = None,
                                       CFBundleDisplayName = Some (JStr ''Foo Pane''), CFBundleName = None,
                                       CFBundleIdentifier = None \<rparr>) \<rparr>"


definition app_env :: env where
  "app_env =
     bare_env\<lparr> existsSync := (\<lambda>p. p = ''/Applications''),
               readdirSync := (\<lambda>p. if p = ''/Applications''
                                      then Some [''Safari.app''] else None) \<rparr>"

definition icon_env :: "nat \<Rightarrow> env" where
  "icon_env n =
     bare_env\<lparr> existsSync := (\<lambda>p. p = ''/Applications/Notes.app/Contents/Resources''),
               readdirSync := (\<lambda>p. if p = ''/Applications/Notes.app/Contents/Resources''
                                      then Some [''AppIcon.icns''] else None),
               sips := (\<lambda>p. if p = ''/Applications/Notes.app/Contents/Resources/AppIcon.icns''
                               then Some (replicate n 0) else None) \<rparr>"

definition sort_env :: env where
  "sort_env =
     bare_env\<lparr> existsSync := (\<lambda>p. p = ''/Applications''),
               readdirSync := (\<lambda>p. if p = ''/Applications''
                                      then Some [''Zoo.app'', ''Abc.app''] else None) \<rparr>"

definition twin_env :: env where
  "twin_env =
     bare_env\<lparr> existsSync := (\<lambda>p. p = ''/Applications''),
               readdirSync := (\<lambda>p. if p = ''/Applications''
                                      then Some [''Foo Bar.app'', ''Foo-Bar.app''] else None),
               exec_open := (\<lambda>cmd. True) \<rparr>"

definition both_env :: env where
  "both_env =
     bare_env\<lparr> existsSync := (\<lambda>p. p = extDir \<or> p = ''/System/Library/PreferencePanes'' \<or>
                       p = ''/System/Library/ExtensionKit/Extensions/DisplaysSettings.appex/Contents/Info.plist''),
               readdirSync := (\<lambda>p. if p = extDir then Some [''DisplaysSettings.appex'']
                                      else if p = ''/System/Library/PreferencePanes''
                                      then Some [''Displays.prefPane'', ''DateAndTime.prefPane'']
                                      else None),
               plutil := (\<lambda>p. Some \<lparr> CFBundleIconFile = None, CFBundleIconName = None,
                                       CFBundleDisplayName = Some (JStr ''Displays''), CFBundleName = None,
                                       CFBundleIdentifier = Some (JStr ''com.apple.Displays-Settings.extension'') \<rparr>) \<rparr>"


definition illtyped_env :: env where
  "illtyped_env =
     bare_env\<lparr> existsSync := (\<lambda>p. p = extDir \<or>
                       p = ''/System/Library/ExtensionKit/Extensions/FooSettings.appex/Contents/Info.plist''),
               readdirSync := (\<lambda>p. if p = extDir then Some [''FooSettings.appex''] else None),
               plutil := (\<lambda>p. Some \<lparr> CFBundleIconFile = None, CFBundleIconName = None,
                                       CFBundleDisplayName = Some (JNum ''5''), CFBundleName = None,
                                       CFBundleIdentifier = Some (JStr ''com.example.foo'') \<rparr>) \<rparr>"

section \<open>The name normalizer\<close>

text \<open>
  C4. \<open>cleanPaneName\<close> is a function of its argument alone (no module state or
  collaborator enters its definition, so equal inputs give equal outputs), and on the
  reference inputs it yields \<open>Date & Time\<close> for \<open>DateAndTime\<close> and
  \<open>Desktop & Screen Saver\<close> for \<open>DesktopScreenEffectsPref\<close>.
\<close>

theorem cleanPaneName_reference_inputs:
  "cleanPaneName ''DateAndTime'' = ''Date & Time'' \<and>
   cleanPaneName ''DesktopScreenEffectsPref'' = ''Desktop & Screen Saver''"
  by code_simp

section \<open>The icon extractor\<close>

lemma if_truthy_Some: "if_truthy r = Some u \<Longrightarrow> r = Some u"
  by (auto simp: if_truthy_def split: if_splits)

lemma try_priority_Some:
  "try_priority e dir files names = Some u \<Longrightarrow>
     \<exists>name. icnsToPngDataUrl e (path_join [dir, name]) = Some u"
  by (induction names) (auto split: if_splits option.splits dest: if_truthy_Some)

lemma icon_step1_Some:
  "icon_step1 e b = Some u \<Longrightarrow>
     \<exists>name. icnsToPngDataUrl e (path_join [path_join [b, ''Contents'', ''Resources''], name]) = Some u"
  unfolding icon_step1_def Let_def
  by (auto split: if_splits option.splits jvalue.splits dest!: if_truthy_Some)

lemma icon_step2_Some:
  "icon_step2 e b = Some u \<Longrightarrow>
     \<exists>name. icnsToPngDataUrl e (path_join [path_join [b, ''Contents'', ''Resources''], name]) = Some u"
  unfolding icon_step2_def Let_def
  by (auto split: if_splits option.splits dest!: if_truthy_Some try_priority_Some)

lemma icns_None:
  assumes "\<forall>q buf. sips e q = Some buf \<longrightarrow> length buf \<le> 100"
  shows "icnsToPngDataUrl e p = None"
proof (cases "sips e p")
  case None
  then show ?thesis by (simp add: icnsToPngDataUrl_def)
next
  case (Some buf)
  with assms have "length buf \<le> 100" by blast
  with Some show ?thesis by (simp add: icnsToPngDataUrl_def)
qed

text \<open>
  C8. \<open>getIconDataUrl\<close> is total: it returns a data URL or nothing, and raises no
  error. A conversion (\<open>icnsToPngDataUrl\<close>) yields an image exactly when \<open>sips\<close> and the
  read of its output succeed and the output has more than 100 bytes; an output of 100
  bytes or fewer is rejected. A data URL that \<open>getIconDataUrl\<close> returns is either such a
  conversion of a file in the bundle's resources, or the non-empty icon of
  \<open>app.getFileIcon\<close>. When all three steps fail the result is nothing; so it is when no
  conversion produces more than 100 bytes and \<open>app.getFileIcon\<close> gives no icon.
\<close>

theorem getIconDataUrl_sound:
  "(icnsToPngDataUrl e p = Some u \<longleftrightarrow>
      (\<exists>buf. sips e p = Some buf \<and> 100 < length buf \<and>
             u = ''data:image/png;base64,'' @ base64 buf)) \<and>
   (getIconDataUrl e b = Some u \<longrightarrow>
      (\<exists>name. icnsToPngDataUrl e (path_join [path_join [b, ''Contents'', ''Resources''], name])
                = Some u) \<or>
      getFileIcon e b = Some u) \<and>
   (icon_step1 e b = None \<and> icon_step2 e b = None \<and> icon_step3 e b = None \<longrightarrow>
      getIconDataUrl e b = None) \<and>
   ((\<forall>q buf. sips e q = Some buf \<longrightarrow> length buf \<le> 100) \<and> getFileIcon e b = None \<longrightarrow>
      getIconDataUrl e b = None)"
proof (intro conjI impI)
  show "icnsToPngDataUrl e p = Some u \<longleftrightarrow>
      (\<exists>buf. sips e p = Some buf \<and> 100 < length buf \<and>
             u = ''data:image/png;base64,'' @ base64 buf)"
    by (auto simp: icnsToPngDataUrl_def split: option.splits)
next
  assume "getIconDataUrl e b = Some u"
  then consider "icon_step1 e b = Some u" | "icon_step2 e b = Some u" | "icon_step3 e b = Some u"
    by (auto simp: getIconDataUrl_def split: option.splits)
  then show "(\<exists>name. icnsToPngDataUrl e (path_join [path_join [b, ''Contents'', ''Resources''], name])
                = Some u) \<or> getFileIcon e b = Some u"
  proof cases
    case 1 then show ?thesis using icon_step1_Some by blast
  next
    case 2 then show ?thesis using icon_step2_Some by blast
  next
    case 3 then show ?thesis by (simp add: icon_step3_def)
  qed
next
  assume "icon_step1 e b = None \<and> icon_step2 e b = None \<and> icon_step3 e b = None"
  then show "getIconDataUrl e b = None" by (simp add: getIconDataUrl_def)
next
  assume a: "(\<forall>q buf. sips e q = Some buf \<longrightarrow> length buf \<le> 100) \<and> getFileIcon e b = None"
  show "getIconDataUrl e b = None"
  proof (cases "getIconDataUrl e b")
    case None then show ?thesis .
  next
    case (Some u)
    then consider "icon_step1 e b = Some u" | "icon_step2 e b = Some u" | "icon_step3 e b = Some u"
      by (auto simp: getIconDataUrl_def split: option.splits)
    then show ?thesis
    proof cases
      case 1 then show ?thesis using icon_step1_Some [of e b u] icns_None [of e] a by auto
    next
      case 2 then show ?thesis using icon_step2_Some [of e b u] icns_None [of e] a by auto
    next
      case 3 then show ?thesis using a by (simp add: icon_step3_def)
    qed
  qed
qed

text \<open>
  The bundle of \<open>icon_env n\<close> has no manifest and one \<open>AppIcon.icns\<close>, which \<open>sips\<close>
  converts into \<open>n\<close> bytes: 101 bytes are accepted, 100 are not.
\<close>

lemma icon_env_simps:
  "existsSync (icon_env n) p = (p = ''/Applications/Notes.app/Contents/Resources'')"
  "readdirSync (icon_env n) p =
     (if p = ''/Applications/Notes.app/Contents/Resources'' then Some [''AppIcon.icns''] else None)"
  "sips (icon_env n) p =
     (if p = ''/Applications/Notes.app/Contents/Resources/AppIcon.icns''
      then Some (replicate n 0) else None)"
  "getFileIcon (icon_env n) p = None"
  by (simp_all add: icon_env_def bare_env_def)

theorem getIconDataUrl_sound_witness:
  "getIconDataUrl (icon_env 101) ''/Applications/Notes.app''
     = Some (''data:image/png;base64,'' @ base64 (replicate 101 0)) \<and>
   getIconDataUrl (icon_env 100) ''/Applications/Notes.app'' = None"
proof -
  have p: "path_join [''/Applications/Notes.app'', ''Contents'', ''Info.plist'']
             = ''/Applications/Notes.app/Contents/Info.plist''"
    "path_join [''/Applications/Notes.app'', ''Contents'', ''Resources'']
             = ''/Applications/Notes.app/Contents/Resources''"
    "path_join [''/Applications/Notes.app/Contents/Resources'', ''icon.icns'']
             = ''/Applications/Notes.app/Contents/Resources/icon.icns''"
    "path_join [''/Applications/Notes.app/Contents/Resources'', ''AppIcon.icns'']
             = ''/Applications/Notes.app/Contents/Resources/AppIcon.icns''"
    by code_simp+
  have a: "getIconDataUrl (icon_env 101) ''/Applications/Notes.app''
             = Some (''data:image/png;base64,'' @ base64 (replicate 101 0))"
    by (simp add: getIconDataUrl_def icon_step1_def icon_step2_def Let_def p
          icon_env_simps priorityNames_def icnsToPngDataUrl_def if_truthy_def js_truthy_def
          endsWith_def)
  have "(\<forall>q buf. sips (icon_env 100) q = Some buf \<longrightarrow> length buf \<le> 100) \<and>
        getFileIcon (icon_env 100) ''/Applications/Notes.app'' = None"
    by (auto simp: icon_env_simps split: if_splits)
  then have b: "getIconDataUrl (icon_env 100) ''/Applications/Notes.app'' = None"
    using getIconDataUrl_sound [of "icon_env 100" _ _ "''/Applications/Notes.app''"] by blast
  show ?thesis using a b by blast
qed

section \<open>Facts about a rebuild\<close>

lemma length_insort_cmp: "length (insort_cmp cmp x xs) = Suc (length xs)"
  by (induction xs) auto

lemma length_js_sort: "length (js_sort cmp xs) = length xs"
  by (induction xs) (auto simp: js_sort_def length_insort_cmp)

lemma trace_rebuild:
  "trace (snd (rebuild e now s)) =
     trace s @ LogDiscovering #
       (case discoverSystemSettings e of
          Inl err \<Rightarrow> []
        | Inr found \<Rightarrow> [LogDiscovered (length (discoverApplications e)) (length found)])"
  by (simp add: rebuild_def Let_def emit_def sort_by_title_def length_js_sort split: sum.splits)

lemma cache_rebuild:
  "fst (rebuild e now s) = Inr commands \<Longrightarrow>
     cachedCommands (snd (rebuild e now s)) = Some commands \<and>
     cacheTimestamp (snd (rebuild e now s)) = now"
  by (auto simp: rebuild_def Let_def emit_def split: sum.splits)

lemma rebuild_rejected:
  "fst (rebuild e now s) = Inl err \<Longrightarrow> snd (rebuild e now s) = emit LogDiscovering s"
  by (auto simp: rebuild_def Let_def split: sum.splits)

lemma getAvailableCommands_no_exec:
  "Exec cmd \<in> set (trace (snd (getAvailableCommands e now s))) \<Longrightarrow> Exec cmd \<in> set (trace s)"
  by (auto simp: getAvailableCommands_def trace_rebuild split: option.splits sum.splits if_splits)


section \<open>Execution\<close>

text \<open>
  C9. In every state of the cache, \<open>executeCommand\<close> on the id
  \<open>system-quit-launcher\<close> returns true at once: the only effect is \<open>app.quit()\<close>; the
  catalog is not consulted or rebuilt (no console line of a rebuild, no command line
  run), and the cache slot and its time stamp are unchanged.
\<close>

theorem executeCommand_quit:
  "fst (executeCommand e now s ''system-quit-launcher'') = Inr True \<and>
   cachedCommands (snd (executeCommand e now s ''system-quit-launcher'')) = cachedCommands s \<and>
   cacheTimestamp (snd (executeCommand e now s ''system-quit-launcher'')) = cacheTimestamp s \<and>
   trace (snd (executeCommand e now s ''system-quit-launcher'')) = trace s @ [AppQuit]"
  by (simp add: executeCommand_def emit_def)

text \<open>
  C10. For an id other than \<open>system-quit-launcher\<close> that resolves (by \<open>find\<close>, in the
  catalog \<open>getAvailableCommands\<close> returns) to an entry whose \<open>path\<close> is absent or the
  empty string, \<open>executeCommand\<close> returns false; it writes the line \<open>Command not found\<close>
  and runs no command line. In particular an entry the extension source built from a
  manifest without \<open>CFBundleIdentifier\<close> has the empty string as its \<open>path\<close>, and
  executing it returns false.
\<close>

theorem executeCommand_no_target:
  assumes "ident \<noteq> ''system-quit-launcher''"
    and "getAvailableCommands e now s = (Inr commands, s1)"
    and "find (\<lambda>c. cmd_id c = ident) commands = Some command"
  shows "(path command = None \<or> path command = Some (JStr []) \<longrightarrow>
            executeCommand e now s ident = (Inr False, emit (ErrNotFound ident) s1) \<and>
            (\<forall>cmd. Exec cmd \<in> set (trace (snd (executeCommand e now s ident)))
                     \<longrightarrow> Exec cmd \<in> set (trace s))) \<and>
         (\<forall>e' icon file seen seen' info.
            appex_item e' icon file seen = Inr (Some command, seen') \<and>
            readPlistJson e' (path_join [extDir, file]) = Some info \<and>
            \<not> jv_truthy (CFBundleIdentifier info) \<longrightarrow>
              path command = Some (JStr []) \<and>
              executeCommand e now s ident = (Inr False, emit (ErrNotFound ident) s1))"
proof -
  have a: "executeCommand e now s ident = (Inr False, emit (ErrNotFound ident) s1)"
    if "path command = None \<or> path command = Some (JStr [])"
    using that assms by (auto simp: executeCommand_def dispatch_def)
  have t: "Exec cmd \<in> set (trace s)"
    if "Exec cmd \<in> set (trace (emit (ErrNotFound ident) s1))" for cmd
  proof -
    from that have "Exec cmd \<in> set (trace s1)" by (simp add: emit_def)
    moreover have "s1 = snd (getAvailableCommands e now s)" using assms(2) by simp
    ultimately show ?thesis using getAvailableCommands_no_exec [of cmd e now s] by simp
  qed
  have b: "path command = Some (JStr [])"
    if "appex_item e' icon fl seen = Inr (Some command, seen')"
      and "readPlistJson e' (path_join [extDir, fl]) = Some info"
      and "\<not> jv_truthy (CFBundleIdentifier info)"
    for e' icon fl seen seen' info
    using that
    by (auto simp: appex_item_def Let_def jv_or_def settings_entry_def
             split: if_splits sum.splits bool.splits jvalue.splits)
  have c: "executeCommand e now s ident = (Inr False, emit (ErrNotFound ident) s1) \<and>
            (\<forall>cmd. Exec cmd \<in> set (trace (snd (executeCommand e now s ident)))
                     \<longrightarrow> Exec cmd \<in> set (trace s))"
    if "path command = None \<or> path command = Some (JStr [])"
    using a [OF that] t by simp
  show ?thesis using a b c by blast
qed

text \<open>
  The extension \<open>FooSettings.appex\<close> of \<open>noid_env\<close> has a display name and no bundle
  identifier: it is discovered with the empty string as its target, and executing it
  fails.
\<close>

theorem executeCommand_no_target_witness:
  "''settings-foo-pane'' \<noteq> ''system-quit-launcher'' \<and>
   fst (getAvailableCommands noid_env 0 initial)
     = Inr [settings_entry ''foo pane'' ''Foo Pane'' None (JStr []), hd systemCommands] \<and>
   appex_item noid_env None ''FooSettings.appex'' {}
     = Inr (Some (settings_entry ''foo pane'' ''Foo Pane'' None (JStr [])), {''foo pane''}) \<and>
   executeCommand noid_env 0 initial ''settings-foo-pane''
     = (Inr False, emit (ErrNotFound ''settings-foo-pane'')
                     (snd (getAvailableCommands noid_env 0 initial)))"
proof -
  let ?c = "settings_entry ''foo pane'' ''Foo Pane'' None (JStr [])"
  let ?cs = "[?c, hd systemCommands]"
  let ?info = "\<lparr> CFBundleIconFile = None, CFBundleIconName = None,
                 CFBundleDisplayName = Some (JStr ''Foo Pane''), CFBundleName = None,
                 CFBundleIdentifier = None \<rparr>"
  have h1: "''settings-foo-pane'' \<noteq> ''system-quit-launcher''" by simp
  have g: "fst (getAvailableCommands noid_env 0 initial) = Inr ?cs" by code_simp
  then have h2: "getAvailableCommands noid_env 0 initial =
              (Inr ?cs, snd (getAvailableCommands noid_env 0 initial))"
    by (simp add: prod_eq_iff)
  have h3: "find (\<lambda>c. cmd_id c = ''settings-foo-pane'') ?cs = Some ?c"
    by code_simp
  have h4: "appex_item noid_env None ''FooSettings.appex'' {} = Inr (Some ?c, {''foo pane''})"
    by code_simp
  have h7: "path ?c = Some (JStr [])" by (simp add: settings_entry_def)
  from executeCommand_no_target [OF h1 h2 h3] h7
  have "executeCommand noid_env 0 initial ''settings-foo-pane''
     = (Inr False, emit (ErrNotFound ''settings-foo-pane'')
                     (snd (getAvailableCommands noid_env 0 initial)))"
    by blast
  with h1 g h4 show ?thesis by (intro conjI)
qed

lemma executeCommand_result:
  assumes "getAvailableCommands e now s = (Inr commands, s1)"
  shows "fst (executeCommand e now s ident) =
           Inr (ident = ''system-quit-launcher'' \<or>
                (\<exists>command target.
                   find (\<lambda>c. cmd_id c = ident) commands = Some command \<and>
                   path command = Some target \<and> truthy target \<and>
                   (category command = App \<longrightarrow>
                      exec_open e (''open \"'' @ js_string target @ ''\"'')) \<and>
                   (category command = Settings \<longrightarrow> (\<exists>identifier. target = JStr identifier))))"
  using assms
  by (auto simp: executeCommand_def dispatch_def openAppByPath_def execAsync_def
                 openSettingsPane_def Let_def
           split: option.splits prod.splits if_splits jvalue.splits)

lemma executeCommand_rejected:
  "ident \<noteq> ''system-quit-launcher'' \<Longrightarrow> fst (getAvailableCommands e now s) = Inl err \<Longrightarrow>
     fst (executeCommand e now s ident) = Inl err"
  by (auto simp: executeCommand_def split: prod.splits sum.splits)

text \<open>
  C1. The claim fails on the code in the settings branch. In \<open>pane_env\<close> no command line
  succeeds: the pane \<open>Foo\<close> is tried under both URL schemes and both application names,
  \<open>openSettingsPane\<close> catches the last failure as well and only logs it, and
  \<open>executeCommand\<close> returns true. The application branch does what the claim says: in
  \<open>app_env\<close> the one \<open>open\<close> fails and the result is false. And where the settings scan
  throws (\<open>illtyped_env\<close>), \<open>executeCommand\<close> on an unknown id is rejected instead of
  returning false.
\<close>

theorem all_fallbacks_fail:
  "(\<forall>cmd. \<not> exec_open pane_env cmd) \<and>
   fst (executeCommand pane_env 0 initial ''settings-foo'') = Inr True \<and>
   trace (snd (executeCommand pane_env 0 initial ''settings-foo'')) =
     [LogDiscovering, LogDiscovered 0 1,
      Exec ''open \"x-apple.systempreferences:com.apple.settings.Foo\"'',
      Exec ''open \"x-apple.systempreferences:com.apple.preference.foo\"'',
      Exec ''open -a \"System Settings\"'',
      Exec ''open -a \"System Preferences\"'',
      ErrSettings] \<and>
   (\<forall>cmd. \<not> exec_open app_env cmd) \<and>
   fst (executeCommand app_env 0 initial ''app-safari'') = Inr False \<and>
   trace (snd (executeCommand app_env 0 initial ''app-safari'')) =
     [LogDiscovering, LogDiscovered 1 0,
      Exec ''open \"/Applications/Safari.app\"'',
      ErrFailed ''app-safari''] \<and>
   fst (executeCommand illtyped_env 0 initial ''no-such-id'') = Inl TypeError"
proof -
  have 1: "\<forall>cmd. \<not> exec_open pane_env cmd"
    by (simp add: pane_env_def bare_env_def)
  have 2: "fst (executeCommand pane_env 0 initial ''settings-foo'') = Inr True"
    by code_simp
  have 3: "trace (snd (executeCommand pane_env 0 initial ''settings-foo'')) =
     [LogDiscovering, LogDiscovered 0 1,
      Exec ''open \"x-apple.systempreferences:com.apple.settings.Foo\"'',
      Exec ''open \"x-apple.systempreferences:com.apple.preference.foo\"'',
      Exec ''open -a \"System Settings\"'',
      Exec ''open -a \"System Preferences\"'',
      ErrSettings]"
    by code_simp
  have 4: "\<forall>cmd. \<not> exec_open app_env cmd"
    by (simp add: app_env_def bare_env_def)
  have 5: "fst (executeCommand app_env 0 initial ''app-safari'') = Inr False"
    by code_simp
  have 6: "trace (snd (executeCommand app_env 0 initial ''app-safari'')) =
     [LogDiscovering, LogDiscovered 1 0,
      Exec ''open \"/Applications/Safari.app\"'',
      ErrFailed ''app-safari'']"
    by code_simp
  have 7: "fst (executeCommand illtyped_env 0 initial ''no-such-id'') = Inl TypeError"
    by code_simp
  show ?thesis by (intro conjI) (rule 1 2 3 4 5 6 7)+
qed

section \<open>The cache\<close>

text \<open>
  C3, as the code has it. The age of the cache is measured from its time stamp, the
  time of the last rebuild, not from the previous call. A call made less than
  120000 ms after the time stamp of a filled cache returns the stored catalog and
  leaves the registry as it was (no discovery runs, in whatever environment); a call
  made 120000 ms or more after the time stamp rebuilds. So a call that follows a call
  that rebuilt by less than 120000 ms returns the same catalog and changes nothing. (A
  call whose scan throws leaves the slot and the time stamp as they were.)
\<close>

theorem getAvailableCommands_ttl:
  "(cachedCommands s = Some commands \<and> now - cacheTimestamp s < 120000 \<longrightarrow>
      getAvailableCommands e now s = (Inr commands, s)) \<and>
   (120000 \<le> now - cacheTimestamp s \<longrightarrow>
      getAvailableCommands e now s = rebuild e now s \<and>
      trace (snd (getAvailableCommands e now s)) =
        trace s @ LogDiscovering #
          (case discoverSystemSettings e of
             Inl err \<Rightarrow> []
           | Inr found \<Rightarrow> [LogDiscovered (length (discoverApplications e)) (length found)])) \<and>
   ((cachedCommands s = None \<or> 120000 \<le> t1 - cacheTimestamp s) \<and> t2 - t1 < 120000 \<and>
    fst (getAvailableCommands e1 t1 s) = Inr stored \<longrightarrow>
      getAvailableCommands e2 t2 (snd (getAvailableCommands e1 t1 s)) =
        getAvailableCommands e1 t1 s) \<and>
   ((cachedCommands s = None \<or> 120000 \<le> t1 - cacheTimestamp s) \<and>
    fst (getAvailableCommands e1 t1 s) = Inl err \<longrightarrow>
      cachedCommands (snd (getAvailableCommands e1 t1 s)) = cachedCommands s \<and>
      cacheTimestamp (snd (getAvailableCommands e1 t1 s)) = cacheTimestamp s)"
proof (intro conjI impI)
  assume "cachedCommands s = Some commands \<and> now - cacheTimestamp s < 120000"
  then show "getAvailableCommands e now s = (Inr commands, s)"
    by (simp add: getAvailableCommands_def CACHE_TTL_def)
next
  assume a: "120000 \<le> now - cacheTimestamp s"
  then show r: "getAvailableCommands e now s = rebuild e now s"
    by (simp add: getAvailableCommands_def CACHE_TTL_def split: option.splits)
  show "trace (snd (getAvailableCommands e now s)) =
        trace s @ LogDiscovering #
          (case discoverSystemSettings e of
             Inl err \<Rightarrow> []
           | Inr found \<Rightarrow> [LogDiscovered (length (discoverApplications e)) (length found)])"
    by (simp only: r trace_rebuild)
next
  assume a: "(cachedCommands s = None \<or> 120000 \<le> t1 - cacheTimestamp s) \<and> t2 - t1 < 120000 \<and>
    fst (getAvailableCommands e1 t1 s) = Inr stored"
  then have r: "getAvailableCommands e1 t1 s = rebuild e1 t1 s"
    by (auto simp: getAvailableCommands_def CACHE_TTL_def split: option.splits)
  with a have f: "fst (rebuild e1 t1 s) = Inr stored" by simp
  from a show "getAvailableCommands e2 t2 (snd (getAvailableCommands e1 t1 s)) =
        getAvailableCommands e1 t1 s"
    unfolding r using cache_rebuild [OF f] f
    by (simp add: getAvailableCommands_def CACHE_TTL_def prod_eq_iff)
next
  assume a: "(cachedCommands s = None \<or> 120000 \<le> t1 - cacheTimestamp s) \<and>
    fst (getAvailableCommands e1 t1 s) = Inl err"
  then have r: "getAvailableCommands e1 t1 s = rebuild e1 t1 s"
    by (auto simp: getAvailableCommands_def CACHE_TTL_def split: option.splits)
  with a have f: "fst (rebuild e1 t1 s) = Inl err" by simp
  show "cachedCommands (snd (getAvailableCommands e1 t1 s)) = cachedCommands s"
    and "cacheTimestamp (snd (getAvailableCommands e1 t1 s)) = cacheTimestamp s"
    unfolding r rebuild_rejected [OF f] by (simp_all add: emit_def)
qed

theorem getAvailableCommands_ttl_witness:
  "getAvailableCommands app_env 119999 (snd (getAvailableCommands bare_env 0 initial))
     = getAvailableCommands bare_env 0 initial \<and>
   fst (getAvailableCommands bare_env 0 initial) = Inr systemCommands \<and>
   trace (snd (getAvailableCommands app_env 120000 (snd (getAvailableCommands bare_env 0 initial))))
     = [LogDiscovering, LogDiscovered 0 0, LogDiscovering, LogDiscovered 1 0]"
proof -
  let ?s1 = "snd (getAvailableCommands bare_env 0 initial)"
  have c: "cachedCommands initial = None \<or> 120000 \<le> 0 - cacheTimestamp initial"
    by (simp add: initial_def)
  have t: "(119999::int) - 0 < 120000" by simp
  have b: "fst (getAvailableCommands bare_env 0 initial) = Inr systemCommands"
    by code_simp
  have "(cachedCommands initial = None \<or> 120000 \<le> 0 - cacheTimestamp initial) \<and>
        (119999::int) - 0 < 120000 \<and>
        fst (getAvailableCommands bare_env 0 initial) = Inr systemCommands \<longrightarrow>
          getAvailableCommands app_env 119999 ?s1 = getAvailableCommands bare_env 0 initial"
    by (rule getAvailableCommands_ttl [of initial _ _ _ 0 119999 bare_env systemCommands app_env,
          THEN conjunct2, THEN conjunct2, THEN conjunct1])
  with c t b
  have a: "getAvailableCommands app_env 119999 ?s1 = getAvailableCommands bare_env 0 initial"
    by blast
  have ts: "cacheTimestamp ?s1 = 0" "trace ?s1 = [LogDiscovering, LogDiscovered 0 0]"
    by code_simp+
  have n: "length (discoverApplications app_env) = 1" "discoverSystemSettings app_env = Inr []"
    by code_simp+
  have o: "120000 \<le> 120000 - cacheTimestamp ?s1" by (simp add: ts)
  have "120000 \<le> 120000 - cacheTimestamp ?s1 \<longrightarrow>
      getAvailableCommands app_env 120000 ?s1 = rebuild app_env 120000 ?s1 \<and>
      trace (snd (getAvailableCommands app_env 120000 ?s1)) =
        trace ?s1 @ LogDiscovering #
          (case discoverSystemSettings app_env of
             Inl err \<Rightarrow> []
           | Inr found \<Rightarrow> [LogDiscovered (length (discoverApplications app_env)) (length found)])"
    by (rule getAvailableCommands_ttl [of ?s1 _ 120000 app_env, THEN conjunct2, THEN conjunct1])
  with o have "trace (snd (getAvailableCommands app_env 120000 ?s1)) =
        trace ?s1 @ LogDiscovering #
          (case discoverSystemSettings app_env of
             Inl err \<Rightarrow> []
           | Inr found \<Rightarrow> [LogDiscovered (length (discoverApplications app_env)) (length found)])"
    by blast
  then have d: "trace (snd (getAvailableCommands app_env 120000 ?s1))
     = [LogDiscovering, LogDiscovered 0 0, LogDiscovering, LogDiscovered 1 0]"
    by (simp add: ts n)
  show ?thesis by (intro conjI) (rule a b d)+
qed

text \<open>
  The claim as stated, for any two calls, fails: after a rebuild at time 0, a call at
  100000 is served from the cache, and the call at 200000, less than 120000 ms after
  it, rebuilds (the cache is 200000 ms old) and returns another catalog.
\<close>

theorem two_calls_within_ttl_counterexample:
  "(let r1 = getAvailableCommands bare_env 100000 (snd (getAvailableCommands bare_env 0 initial));
        r2 = getAvailableCommands app_env 200000 (snd r1)
    in (200000::int) - 100000 < 120000 \<and>
       fst r1 = Inr systemCommands \<and>
       fst r2 = Inr (discoverApplications app_env @ systemCommands) \<and>
       fst r2 \<noteq> fst r1 \<and>
       trace (snd r2) = trace (snd r1) @ [LogDiscovering, LogDiscovered 1 0])"
  by code_simp


lemma mset_insort_cmp: "mset (insort_cmp cmp x xs) = add_mset x (mset xs)"
  by (induction xs) auto

lemma mset_js_sort: "mset (js_sort cmp xs) = mset xs"
  by (induction xs) (auto simp: js_sort_def mset_insort_cmp)

lemma set_insort_cmp: "set (insort_cmp cmp x xs) = insert x (set xs)"
  using mset_insort_cmp [of cmp x xs, THEN arg_cong, of set_mset] by simp

lemma sorted_insort_cmp:
  assumes total: "\<And>a b. cmp a b \<le> 0 \<or> cmp b a \<le> 0"
    and trans: "\<And>a b c. cmp a b \<le> 0 \<Longrightarrow> cmp b c \<le> 0 \<Longrightarrow> cmp a c \<le> 0"
  shows "sorted_wrt (\<lambda>a b. cmp a b \<le> 0) xs \<Longrightarrow> sorted_wrt (\<lambda>a b. cmp a b \<le> 0) (insort_cmp cmp x xs)"
proof (induction xs)
  case Nil
  then show ?case by simp
next
  case (Cons y ys)
  show ?case
  proof (cases "cmp x y \<le> 0")
    case True
    with Cons.prems show ?thesis using trans by auto
  next
    case False
    with total have "cmp y x \<le> 0" by blast
    with False Cons show ?thesis by (auto simp: set_insort_cmp)
  qed
qed

lemma sorted_js_sort:
  assumes "\<And>a b. cmp a b \<le> 0 \<or> cmp b a \<le> 0"
    and "\<And>a b c. cmp a b \<le> 0 \<Longrightarrow> cmp b c \<le> 0 \<Longrightarrow> cmp a c \<le> 0"
  shows "sorted_wrt (\<lambda>a b. cmp a b \<le> 0) (js_sort cmp xs)"
proof (induction xs)
  case Nil
  then show ?case by (simp add: js_sort_def)
next
  case (Cons x xs)
  then show ?case
    using sorted_insort_cmp [of cmp "js_sort cmp xs" x, OF assms]
    by (simp add: js_sort_def)
qed

lemma batches_Nil: "batches [] = []"
  by (simp add: batches.simps)

lemma app_dir_empty:
  "\<not> existsSync e dir \<or> readdirSync e dir = None \<or> readdirSync e dir = Some [] \<Longrightarrow>
     app_dir e dir st = st"
  by (cases st) (auto simp: app_dir_def batches_Nil)

lemma app_dirs_loop_empty:
  "\<forall>dir \<in> set dirs. \<not> existsSync e dir \<or> readdirSync e dir = None \<or> readdirSync e dir = Some [] \<Longrightarrow>
     app_dirs_loop e dirs st = st"
  by (induction dirs) (simp_all add: app_dir_empty)

lemma getAvailableCommands_miss:
  "cachedCommands s = None \<or> 120000 \<le> now - cacheTimestamp s \<Longrightarrow>
     getAvailableCommands e now s = rebuild e now s"
  by (auto simp: getAvailableCommands_def CACHE_TTL_def split: option.splits)

lemma fst_rebuild:
  "fst (rebuild e now s) =
     (case discoverSystemSettings e of
        Inl err \<Rightarrow> Inl err
      | Inr found \<Rightarrow>
          Inr (sort_by_title e (discoverApplications e) @ sort_by_title e found @ systemCommands))"
  by (simp add: rebuild_def Let_def split: sum.splits)

text \<open>
  What a rebuild that completes stores: the applications sorted by title, then the
  settings sorted by title, then the fixed system entries. Sorting permutes the entries
  and, \<open>localeCompare\<close> being a total preorder, orders them by it. When every application
  directory is absent, unreadable or empty, there is no application entry.
\<close>

lemma rebuild_catalog:
  assumes "cachedCommands s = None \<or> 120000 \<le> now - cacheTimestamp s"
    and "discoverSystemSettings e = Inr found"
  shows "fst (getAvailableCommands e now s) =
           Inr (sort_by_title e (discoverApplications e) @
                sort_by_title e found @ systemCommands) \<and>
         cachedCommands (snd (getAvailableCommands e now s)) =
           Some (sort_by_title e (discoverApplications e) @
                 sort_by_title e found @ systemCommands) \<and>
         cacheTimestamp (snd (getAvailableCommands e now s)) = now \<and>
         mset (sort_by_title e xs) = mset xs \<and>
         ((\<forall>a b. localeCompare e a b \<le> 0 \<or> localeCompare e b a \<le> 0) \<and>
          (\<forall>a b c. localeCompare e a b \<le> 0 \<and> localeCompare e b c \<le> 0
                     \<longrightarrow> localeCompare e a c \<le> 0) \<longrightarrow>
            sorted_wrt (\<lambda>a b. localeCompare e (title a) (title b) \<le> 0) (sort_by_title e xs)) \<and>
         ((\<forall>dir \<in> set (appDirs e).
              \<not> existsSync e dir \<or> readdirSync e dir = None \<or> readdirSync e dir = Some []) \<longrightarrow>
            discoverApplications e = [] \<and>
            fst (getAvailableCommands e now s) =
              Inr (sort_by_title e found @ systemCommands))"
proof -
  have r: "getAvailableCommands e now s = rebuild e now s"
    using assms(1) by (rule getAvailableCommands_miss)
  have c1: "fst (getAvailableCommands e now s) =
           Inr (sort_by_title e (discoverApplications e) @
                sort_by_title e found @ systemCommands)"
    by (simp add: r fst_rebuild assms(2))
  have c2: "cachedCommands (snd (getAvailableCommands e now s)) =
           Some (sort_by_title e (discoverApplications e) @
                 sort_by_title e found @ systemCommands)"
    and c3: "cacheTimestamp (snd (getAvailableCommands e now s)) = now"
    using cache_rebuild [of e now s] c1 by (simp_all add: r)
  have c4: "mset (sort_by_title e xs) = mset xs"
    by (simp add: sort_by_title_def mset_js_sort)
  have c5: "sorted_wrt (\<lambda>a b. localeCompare e (title a) (title b) \<le> 0) (sort_by_title e xs)"
    if "(\<forall>a b. localeCompare e a b \<le> 0 \<or> localeCompare e b a \<le> 0) \<and>
        (\<forall>a b c. localeCompare e a b \<le> 0 \<and> localeCompare e b c \<le> 0
                     \<longrightarrow> localeCompare e a c \<le> 0)"
    unfolding sort_by_title_def
    by (rule sorted_js_sort) (use that in blast)+
  have c6: "discoverApplications e = [] \<and>
            fst (getAvailableCommands e now s) =
              Inr (sort_by_title e found @ systemCommands)"
    if "\<forall>dir \<in> set (appDirs e).
              \<not> existsSync e dir \<or> readdirSync e dir = None \<or> readdirSync e dir = Some []"
  proof -
    have "discoverApplications e = []"
      using that by (simp add: discoverApplications_def app_dirs_loop_empty)
    then show ?thesis by (simp add: c1 sort_by_title_def js_sort_def)
  qed
  show ?thesis using c1 c2 c3 c4 c5 c6 by blast
qed

lemma code_unit_compare_total: "code_unit_compare a b \<le> 0 \<or> code_unit_compare b a \<le> 0"
  by (induction a b rule: code_unit_compare.induct) auto

lemma code_unit_compare_trans:
  "code_unit_compare a b \<le> 0 \<Longrightarrow> code_unit_compare b c \<le> 0 \<Longrightarrow> code_unit_compare a c \<le> 0"
proof (induction a b arbitrary: c rule: code_unit_compare.induct)
  case 1
  then show ?case by simp
next
  case (2 b bs)
  then show ?case by (cases c) auto
next
  case (3 a as)
  then show ?case by simp
next
  case (4 a as b bs)
  show ?case
  proof (cases c)
    case Nil
    with "4.prems" show ?thesis by simp
  next
    case (Cons d ds)
    have ab: "(of_char a :: nat) \<le> of_char b"
      using "4.prems"(1) by (simp split: if_splits)
    have bd: "(of_char b :: nat) \<le> of_char d"
      using "4.prems"(2) Cons by (simp split: if_splits)
    show ?thesis
    proof (cases "(of_char a :: nat) < of_char d")
      case True
      then show ?thesis using Cons by simp
    next
      case False
      with ab bd have e: "(of_char a :: nat) = of_char b" "(of_char b :: nat) = of_char d"
        by linarith+
      then have e': "a = b" "b = d" by simp_all
      have 1: "code_unit_compare as bs \<le> 0"
        using "4.prems"(1) e by simp
      have 2: "code_unit_compare bs ds \<le> 0"
        using "4.prems"(2) Cons e by simp
      have "code_unit_compare as ds \<le> 0"
        using "4.IH" [of ds] 1 2 e by simp
      then show ?thesis using Cons e e' by simp
    qed
  qed
qed

text \<open>
  The two file systems \<open>sort_env\<close> (two applications, listed out of order) and \<open>bare_env\<close>
  (nothing at all) under the comparison by code units.
\<close>

lemma rebuild_catalog_example:
  "map_sum id (map title) (fst (getAvailableCommands sort_env 0 initial)) =
     Inr [''Abc'', ''Zoo'', ''Quit Launcher''] \<and>
   map title (discoverApplications sort_env) = [''Zoo'', ''Abc''] \<and>
   sorted_wrt (\<lambda>a b. code_unit_compare (title a) (title b) \<le> 0)
     (sort_by_title sort_env (discoverApplications sort_env)) \<and>
   discoverApplications bare_env = [] \<and>
   fst (getAvailableCommands bare_env 0 initial) = Inr systemCommands"
proof -
  have miss: "cachedCommands initial = None \<or> 120000 \<le> 0 - cacheTimestamp initial"
    by (simp add: initial_def)
  have lc: "localeCompare sort_env = code_unit_compare"
    by (simp add: sort_env_def bare_env_def)
  have ord: "(\<forall>a b. localeCompare sort_env a b \<le> 0 \<or> localeCompare sort_env b a \<le> 0) \<and>
          (\<forall>a b c. localeCompare sort_env a b \<le> 0 \<and> localeCompare sort_env b c \<le> 0
                     \<longrightarrow> localeCompare sort_env a c \<le> 0)"
    unfolding lc
  proof (intro conjI allI impI)
    fix a b
    show "code_unit_compare a b \<le> 0 \<or> code_unit_compare b a \<le> 0"
      by (rule code_unit_compare_total)
  next
    fix a b c
    assume "code_unit_compare a b \<le> 0 \<and> code_unit_compare b c \<le> 0"
    then show "code_unit_compare a c \<le> 0"
      using code_unit_compare_trans [of a b c] by simp
  qed
  have empty: "\<forall>dir \<in> set (appDirs bare_env).
              \<not> existsSync bare_env dir \<or> readdirSync bare_env dir = None \<or>
              readdirSync bare_env dir = Some []"
    by (simp add: bare_env_def)
  have s0: "discoverSystemSettings bare_env = Inr []" by code_simp
  have s1: "discoverSystemSettings sort_env = Inr []" by code_simp
  have a: "map_sum id (map title) (fst (getAvailableCommands sort_env 0 initial)) =
     Inr [''Abc'', ''Zoo'', ''Quit Launcher'']"
    by code_simp
  have b: "map title (discoverApplications sort_env) = [''Zoo'', ''Abc'']"
    by code_simp
  have "(\<forall>a b. localeCompare sort_env a b \<le> 0 \<or> localeCompare sort_env b a \<le> 0) \<and>
          (\<forall>a b c. localeCompare sort_env a b \<le> 0 \<and> localeCompare sort_env b c \<le> 0
                     \<longrightarrow> localeCompare sort_env a c \<le> 0) \<longrightarrow>
        sorted_wrt (\<lambda>a b. localeCompare sort_env (title a) (title b) \<le> 0)
          (sort_by_title sort_env (discoverApplications sort_env))"
    by (rule rebuild_catalog [OF miss s1, of "discoverApplications sort_env",
          THEN conjunct2, THEN conjunct2, THEN conjunct2, THEN conjunct2, THEN conjunct1])
  then have "sorted_wrt (\<lambda>a b. localeCompare sort_env (title a) (title b) \<le> 0)
          (sort_by_title sort_env (discoverApplications sort_env))"
    using ord by (rule mp)
  then have c: "sorted_wrt (\<lambda>a b. code_unit_compare (title a) (title b) \<le> 0)
     (sort_by_title sort_env (discoverApplications sort_env))"
    unfolding lc .
  have "(\<forall>dir \<in> set (appDirs bare_env).
              \<not> existsSync bare_env dir \<or> readdirSync bare_env dir = None \<or>
              readdirSync bare_env dir = Some []) \<longrightarrow>
           discoverApplications bare_env = [] \<and>
           fst (getAvailableCommands bare_env 0 initial) =
              Inr (sort_by_title bare_env [] @ systemCommands)"
    by (rule rebuild_catalog [OF miss s0,
          THEN conjunct2, THEN conjunct2, THEN conjunct2, THEN conjunct2, THEN conjunct2])
  then have d: "discoverApplications bare_env = [] \<and>
           fst (getAvailableCommands bare_env 0 initial) =
              Inr (sort_by_title bare_env [] @ systemCommands)"
    using empty by (rule mp)
  then have e: "fst (getAvailableCommands bare_env 0 initial) = Inr systemCommands"
    by (simp add: sort_by_title_def js_sort_def)
  from d have d1: "discoverApplications bare_env = []" by (rule conjunct1)
  show ?thesis
    by (intro conjI) (rule a b c d1 e)+
qed

text \<open>
  C5. The claim fails on the code where it says that the rebuild raises no error. In
  \<open>illtyped_env\<close> no application directory exists, and the manifest of the extension
  \<open>FooSettings.appex\<close> is parsable with the number 5 as its display name: the
  application scan returns no entry, \<open>displayName.includes\<close> throws in the settings
  scan, which has no \<open>try\<close> around it, and the call is rejected after its first console
  line, with nothing stored.
\<close>

theorem rebuild_throws:
  "map (existsSync illtyped_env) (appDirs illtyped_env) = [False, False, False, False] \<and>
   discoverApplications illtyped_env = [] \<and>
   map_option CFBundleDisplayName
     (readPlistJson illtyped_env (path_join [extDir, ''FooSettings.appex'']))
     = Some (Some (JNum ''5'')) \<and>
   discoverSystemSettings illtyped_env = Inl TypeError \<and>
   getAvailableCommands illtyped_env 0 initial = (Inl TypeError, emit LogDiscovering initial) \<and>
   cachedCommands (emit LogDiscovering initial) = None"
  by code_simp

section \<open>Identifiers\<close>

lemma cmd_id_from_key:
  "cmd_id (app_entry e appPath) = ''app-'' @ slug (entry_key (app_entry e appPath)) \<and>
   cmd_id (settings_entry (toLowerCase displayName) displayName icon target) =
     ''settings-'' @ slug (entry_key (settings_entry (toLowerCase displayName) displayName icon target))"
  by (simp add: app_entry_def settings_entry_def entry_key_def Let_def)

text \<open>
  C7. The id of an entry is its category prefix followed by \<open>slug\<close> of its key. \<open>slug\<close>
  maps every run of characters other than \<open>a-z0-9\<close> to one hyphen, so distinct keys can
  have one id: the bundles \<open>Foo Bar.app\<close> and \<open>Foo-Bar.app\<close> of \<open>twin_env\<close> have the keys
  \<open>foo bar\<close> and \<open>foo-bar\<close>, pass the check of \<open>seen\<close>, and both get the id
  \<open>app-foo-bar\<close>. The catalog then holds two entries with that id, and executing it
  opens the first.
\<close>

theorem colliding_ids:
  "(case fst (getAvailableCommands twin_env 0 initial) of
      Inl err \<Rightarrow> False
    | Inr commands \<Rightarrow>
        map cmd_id commands = [''app-foo-bar'', ''app-foo-bar'', ''system-quit-launcher''] \<and>
        map path commands =
          [Some (JStr ''/Applications/Foo Bar.app''), Some (JStr ''/Applications/Foo-Bar.app''),
           None] \<and>
        \<not> distinct (map cmd_id commands)) \<and>
   trace (snd (executeCommand twin_env 0 initial ''app-foo-bar'')) =
     [LogDiscovering, LogDiscovered 2 0, Exec ''open \"/Applications/Foo Bar.app\"'']"
  by code_simp


section \<open>Deduplication\<close>

text \<open>
  Every item function either returns \<open>null\<close> and leaves \<open>seen\<close> alone, or returns an
  entry whose key was not in \<open>seen\<close> and enters it. So along every scan the keys of
  \<open>results\<close> are pairwise distinct and \<open>seen\<close> is the set of those keys. For the
  extension source this holds for every order in which the manifest reads complete.
\<close>

lemma non_null_append: "non_null (xs @ ys) = non_null xs @ non_null ys"
  by (induction xs rule: non_null.induct) simp_all

lemma mset_non_null:
  "mset (non_null xs) = image_mset the (filter_mset (\<lambda>x. x \<noteq> None) (mset xs))"
  by (induction xs rule: non_null.induct) simp_all

lemma run_items_length: "length (fst (run_items f xs seen)) = length xs"
  by (induction xs arbitrary: seen) (simp_all add: split_beta Let_def)

lemma run_items_dedup:
  assumes step: "\<And>x seen. f x seen = (None, seen) \<or>
                   (\<exists>c. f x seen = (Some c, insert (entry_key c) seen) \<and> entry_key c \<notin> seen)"
  shows "run_items f xs seen = (items, seen1) \<Longrightarrow>
           distinct (map entry_key (non_null items)) \<and>
           entry_key ` set (non_null items) \<inter> seen = {} \<and>
           seen1 = seen \<union> entry_key ` set (non_null items)"
proof (induction xs arbitrary: seen items seen1)
  case Nil
  then show ?case by simp
next
  case (Cons x xs)
  obtain rs seen2 where r: "run_items f xs (snd (f x seen)) = (rs, seen2)"
    by (cases "run_items f xs (snd (f x seen))")
  note ih = Cons.IH [OF r]
  from step [of x seen] show ?case
  proof
    assume n: "f x seen = (None, seen)"
    with Cons.prems r have "items = None # rs" "seen1 = seen2" by (simp_all add: Let_def)
    with ih n show ?thesis by simp
  next
    assume "\<exists>c. f x seen = (Some c, insert (entry_key c) seen) \<and> entry_key c \<notin> seen"
    then obtain c where c: "f x seen = (Some c, insert (entry_key c) seen)" "entry_key c \<notin> seen"
      by blast
    with Cons.prems r have "items = Some c # rs" "seen1 = seen2" by (simp_all add: Let_def)
    with ih c show ?thesis by auto
  qed
qed

lemma batch_loop_dedup:
  assumes run: "\<And>batch seen items seen1. batch \<in> set bs \<Longrightarrow> run batch seen = (items, seen1) \<Longrightarrow>
                  distinct (map entry_key (non_null items)) \<and>
                  entry_key ` set (non_null items) \<inter> seen = {} \<and>
                  seen1 = seen \<union> entry_key ` set (non_null items)"
  shows "distinct (map entry_key results) \<Longrightarrow> entry_key ` set results = seen \<Longrightarrow>
         batch_loop run bs (results, seen) = (results', seen') \<Longrightarrow>
           distinct (map entry_key results') \<and> entry_key ` set results' = seen' \<and>
           (\<exists>more. results' = results @ more)"
  using run
proof (induction bs arbitrary: results seen)
  case Nil
  then show ?case by simp
next
  case (Cons batch bs)
  obtain items seen1 where b: "run batch seen = (items, seen1)"
    by (cases "run batch seen")
  from Cons.prems(4) [OF _ b]
  have p: "distinct (map entry_key (non_null items))"
    "entry_key ` set (non_null items) \<inter> seen = {}"
    "seen1 = seen \<union> entry_key ` set (non_null items)"
    by simp_all
  have d: "distinct (map entry_key (results @ non_null items))"
    using Cons.prems(1,2) p by auto
  have k: "entry_key ` set (results @ non_null items) = seen1"
    using Cons.prems(2) p by auto
  have l: "batch_loop run bs (results @ non_null items, seen1) = (results', seen')"
    using Cons.prems(3) b by simp
  have "distinct (map entry_key results') \<and> entry_key ` set results' = seen' \<and>
           (\<exists>more. results' = (results @ non_null items) @ more)"
  proof (rule Cons.IH [OF d k l])
    fix b' s it s'
    assume "b' \<in> set bs" and "run b' s = (it, s')"
    then show "distinct (map entry_key (non_null it)) \<and>
                  entry_key ` set (non_null it) \<inter> s = {} \<and>
                  s' = s \<union> entry_key ` set (non_null it)"
      using Cons.prems(4) [of b' s it s'] by simp
  qed
  then show ?case by auto
qed

lemma map_of_zip_lookup:
  "distinct xs \<Longrightarrow> length xs = length ys \<Longrightarrow>
     map (\<lambda>x. case map_of (zip xs ys) x of None \<Rightarrow> None | Some item \<Rightarrow> item) xs = ys"
proof (induction xs arbitrary: ys)
  case Nil
  then show ?case by simp
next
  case (Cons x xs)
  then obtain y ys' where ys: "ys = y # ys'" by (cases ys) auto
  with Cons.prems have l: "length xs = length ys'" and d: "distinct xs" and nx: "x \<notin> set xs"
    by simp_all
  have "map (\<lambda>z. case map_of (zip (x # xs) ys) z of None \<Rightarrow> None | Some item \<Rightarrow> item) xs =
        map (\<lambda>z. case map_of (zip xs ys') z of None \<Rightarrow> None | Some item \<Rightarrow> item) xs"
    using nx ys by (intro map_cong) auto
  with Cons.IH [OF d l] ys show ?case by simp
qed

lemma run_items_err_length:
  "run_items_err f xs seen = Inr (items, seen1) \<Longrightarrow> length items = length xs"
  by (induction xs arbitrary: seen items seen1) (auto split: sum.splits prod.splits)

lemma run_items_err_dedup:
  assumes step: "\<And>x seen r seen1. f x seen = Inr (r, seen1) \<Longrightarrow>
                   (r = None \<and> seen1 = seen) \<or>
                   (\<exists>c. r = Some c \<and> seen1 = insert (entry_key c) seen \<and> entry_key c \<notin> seen)"
  shows "run_items_err f xs seen = Inr (items, seen1) \<Longrightarrow>
           distinct (map entry_key (non_null items)) \<and>
           entry_key ` set (non_null items) \<inter> seen = {} \<and>
           seen1 = seen \<union> entry_key ` set (non_null items)"
proof (induction xs arbitrary: seen items seen1)
  case Nil
  then show ?case by simp
next
  case (Cons x xs)
  from Cons.prems obtain r s1 rs where
    f: "f x seen = Inr (r, s1)" and r: "run_items_err f xs s1 = Inr (rs, seen1)"
    and items: "items = r # rs"
    by (auto split: sum.splits prod.splits)
  note ih = Cons.IH [OF r]
  from step [OF f] show ?case
  proof
    assume "r = None \<and> s1 = seen"
    with ih items show ?thesis by simp
  next
    assume "\<exists>c. r = Some c \<and> s1 = insert (entry_key c) seen \<and> entry_key c \<notin> seen"
    then obtain c where "r = Some c" "s1 = insert (entry_key c) seen" "entry_key c \<notin> seen"
      by blast
    with ih items show ?thesis by auto
  qed
qed

lemma batch_loop_err_dedup:
  assumes run: "\<And>batch seen items seen1. batch \<in> set bs \<Longrightarrow> run batch seen = Inr (items, seen1) \<Longrightarrow>
                  distinct (map entry_key (non_null items)) \<and>
                  entry_key ` set (non_null items) \<inter> seen = {} \<and>
                  seen1 = seen \<union> entry_key ` set (non_null items)"
  shows "distinct (map entry_key results) \<Longrightarrow> entry_key ` set results = seen \<Longrightarrow>
         batch_loop_err run bs (results, seen) = Inr (results', seen') \<Longrightarrow>
           distinct (map entry_key results') \<and> entry_key ` set results' = seen' \<and>
           (\<exists>more. results' = results @ more)"
  using run
proof (induction bs arbitrary: results seen)
  case Nil
  then show ?case by simp
next
  case (Cons batch bs)
  from Cons.prems(3) obtain items seen1 where b: "run batch seen = Inr (items, seen1)"
    and l: "batch_loop_err run bs (results @ non_null items, seen1) = Inr (results', seen')"
    by (auto split: sum.splits prod.splits)
  from Cons.prems(4) [OF _ b]
  have p: "distinct (map entry_key (non_null items))"
    "entry_key ` set (non_null items) \<inter> seen = {}"
    "seen1 = seen \<union> entry_key ` set (non_null items)"
    by simp_all
  have d: "distinct (map entry_key (results @ non_null items))"
    using Cons.prems(1,2) p by auto
  have k: "entry_key ` set (results @ non_null items) = seen1"
    using Cons.prems(2) p by auto
  have "distinct (map entry_key results') \<and> entry_key ` set results' = seen' \<and>
           (\<exists>more. results' = (results @ non_null items) @ more)"
  proof (rule Cons.IH [OF d k l])
    fix b' s it s'
    assume "b' \<in> set bs" and "run b' s = Inr (it, s')"
    then show "distinct (map entry_key (non_null it)) \<and>
                  entry_key ` set (non_null it) \<inter> s = {} \<and>
                  s' = s \<union> entry_key ` set (non_null it)"
      using Cons.prems(4) [of b' s it s'] by simp
  qed
  then show ?case by auto
qed

lemma appex_item_step:
  "appex_item e icon fl seen = Inr (r, seen1) \<Longrightarrow>
     (r = None \<and> seen1 = seen) \<or>
     (\<exists>c. r = Some c \<and> seen1 = insert (entry_key c) seen \<and> entry_key c \<notin> seen)"
  by (auto simp: appex_item_def Let_def entry_key_def settings_entry_def
           split: option.splits sum.splits bool.splits jvalue.splits if_splits)

lemma pane_item_step:
  "pane_item e icon p seen = (None, seen) \<or>
   (\<exists>c. pane_item e icon p seen = (Some c, insert (entry_key c) seen) \<and> entry_key c \<notin> seen)"
  by (simp add: pane_item_def Let_def entry_key_def settings_entry_def)


lemma appex_batch_dedup:
  assumes "distinct batch" and "appex_batch e icon batch seen = Inr (items, seen1)"
  shows "distinct (map entry_key (non_null items)) \<and>
         entry_key ` set (non_null items) \<inter> seen = {} \<and>
         seen1 = seen \<union> entry_key ` set (non_null items)"
proof -
  define order where "order = sort_key (plistDone e) batch"
  from assms(2) obtain rs where r: "run_items_err (appex_item e icon) order seen = Inr (rs, seen1)"
    by (auto simp: appex_batch_def Let_def order_def [symmetric] split: sum.splits prod.splits)
  define g where "g = (\<lambda>fl. case map_of (zip order rs) fl of None \<Rightarrow> None | Some item \<Rightarrow> item)"
  have items: "items = map g batch"
    using assms(2) r by (simp add: appex_batch_def Let_def order_def [symmetric] g_def)
  have len: "length order = length rs"
    using run_items_err_length [OF r] by simp
  have dis: "distinct order" using assms(1) by (simp add: order_def)
  have rs: "map g order = rs"
    unfolding g_def by (rule map_of_zip_lookup [OF dis len])
  have "mset items = image_mset g (mset batch)" by (simp add: items)
  also have "mset batch = mset order" by (simp add: order_def)
  also have "image_mset g (mset order) = mset rs" using rs by (metis mset_map)
  finally have m: "mset (non_null items) = mset (non_null rs)"
    by (simp add: mset_non_null)
  from run_items_err_dedup [OF appex_item_step r]
  have p: "distinct (map entry_key (non_null rs))"
    "entry_key ` set (non_null rs) \<inter> seen = {}"
    "seen1 = seen \<union> entry_key ` set (non_null rs)"
    by simp_all
  have st: "set (non_null items) = set (non_null rs)"
    using m by (rule mset_eq_setD)
  have "mset (map entry_key (non_null items)) = mset (map entry_key (non_null rs))"
    using m by simp
  then have "distinct (map entry_key (non_null items))"
    using p(1) by (metis mset_eq_imp_distinct_iff)
  with p st show ?thesis by simp
qed

lemma set_uniq: "set (uniq xs) = set xs"
  by (induction xs rule: uniq.induct) auto

lemma distinct_uniq: "distinct (uniq xs)"
  by (induction xs rule: uniq.induct) (auto simp: set_uniq)

lemma batches_distinct: "distinct xs \<Longrightarrow> b \<in> set (batches xs) \<Longrightarrow> distinct b"
proof (induction xs rule: batches.induct)
  case (1 xs)
  show ?case
  proof (cases "xs = []")
    case True
    with "1.prems" show ?thesis by (simp add: batches.simps)
  next
    case False
    with "1.prems"(2) have "b = take BATCH xs \<or> b \<in> set (batches (drop BATCH xs))"
      by (subst (asm) batches.simps) simp
    then show ?thesis
      using "1.IH" [OF False] "1.prems"(1) by auto
  qed
qed

lemma appex_source_dedup:
  assumes "appex_source e icon ([], {}) = Inr (results, seen)"
  shows "distinct (map entry_key results) \<and> entry_key ` set results = seen"
proof (cases "existsSync e extDir")
  case False
  with assms show ?thesis by (simp add: appex_source_def)
next
  case True
  define files where "files = (case readdirSync e extDir of None \<Rightarrow> [] | Some fs \<Rightarrow> fs)"
  have l: "batch_loop_err (appex_batch e icon) (batches (allAppex files)) ([], {})
             = Inr (results, seen)"
    using assms True by (simp add: appex_source_def files_def)
  have d: "distinct (allAppex files)"
    by (simp add: allAppex_def Let_def distinct_uniq)
  have "distinct (map entry_key results) \<and> entry_key ` set results = seen \<and>
        (\<exists>more. results = [] @ more)"
  proof (rule batch_loop_err_dedup [OF _ _ _ l])
    fix batch seen0 items seen1
    assume "batch \<in> set (batches (allAppex files))"
      and "appex_batch e icon batch seen0 = Inr (items, seen1)"
    then show "distinct (map entry_key (non_null items)) \<and>
                  entry_key ` set (non_null items) \<inter> seen0 = {} \<and>
                  seen1 = seen0 \<union> entry_key ` set (non_null items)"
      using appex_batch_dedup batches_distinct [OF d] by blast
  qed simp_all
  then show ?thesis by simp
qed

lemma pane_dir_cases:
  "pane_dir e icon dir st = st \<or>
   (\<exists>panePaths. pane_dir e icon dir st =
      batch_loop (run_items (pane_item e icon)) (batches panePaths) st)"
proof (cases "existsSync e dir")
  case False
  then show ?thesis by (simp add: pane_dir_def)
next
  case True
  show ?thesis
  proof (cases "readdirSync e dir")
    case None
    with True show ?thesis by (simp add: pane_dir_def)
  next
    case (Some entries)
    with True show ?thesis by (simp add: pane_dir_def Let_def) blast
  qed
qed

lemma pane_dir_dedup:
  assumes "distinct (map entry_key results)" and "entry_key ` set results = seen"
    and "pane_dir e icon dir (results, seen) = (results', seen')"
  shows "distinct (map entry_key results') \<and> entry_key ` set results' = seen' \<and>
         (\<exists>more. results' = results @ more)"
  using pane_dir_cases [of e icon dir "(results, seen)"]
proof
  assume "pane_dir e icon dir (results, seen) = (results, seen)"
  with assms show ?thesis by simp
next
  assume "\<exists>panePaths. pane_dir e icon dir (results, seen) =
      batch_loop (run_items (pane_item e icon)) (batches panePaths) (results, seen)"
  then obtain panePaths where
    "pane_dir e icon dir (results, seen) =
      batch_loop (run_items (pane_item e icon)) (batches panePaths) (results, seen)" ..
  with assms(3)
  have l: "batch_loop (run_items (pane_item e icon)) (batches panePaths) (results, seen)
               = (results', seen')" by simp
  show ?thesis
  proof (rule batch_loop_dedup [OF _ assms(1,2) l])
    fix batch seen0 items seen1
    assume "run_items (pane_item e icon) batch seen0 = (items, seen1)"
    then show "distinct (map entry_key (non_null items)) \<and>
                  entry_key ` set (non_null items) \<inter> seen0 = {} \<and>
                  seen1 = seen0 \<union> entry_key ` set (non_null items)"
      by (rule run_items_dedup [OF pane_item_step])
  qed
qed

lemma pane_dirs_loop_dedup:
  "distinct (map entry_key results) \<Longrightarrow> entry_key ` set results = seen \<Longrightarrow>
   pane_dirs_loop e icon dirs (results, seen) = (results', seen') \<Longrightarrow>
     distinct (map entry_key results') \<and> entry_key ` set results' = seen' \<and>
     (\<exists>more. results' = results @ more)"
proof (induction dirs arbitrary: results seen)
  case Nil
  then show ?case by simp
next
  case (Cons dir dirs)
  obtain r1 s1 where p: "pane_dir e icon dir (results, seen) = (r1, s1)"
    by (cases "pane_dir e icon dir (results, seen)")
  from pane_dir_dedup [OF Cons.prems(1,2) p]
  have a: "distinct (map entry_key r1)" "entry_key ` set r1 = s1" "\<exists>more. r1 = results @ more"
    by simp_all
  have "pane_dirs_loop e icon dirs (r1, s1) = (results', seen')"
    using Cons.prems(3) p by simp
  from Cons.IH [OF a(1,2) this] a(3) show ?case by auto
qed

text \<open>
  C2. No two entries of a result of \<open>discoverSystemSettings\<close> have the same lower-case
  title. The result starts with the entries of the extension source, which is processed
  first, and an entry of the result whose key is the key of an extension entry is that
  extension entry: a legacy pane whose key is in \<open>seen\<close> is skipped.
\<close>

theorem settings_dedup:
  "(discoverSystemSettings e = Inr found \<longrightarrow>
      distinct (map (\<lambda>c. toLowerCase (title c)) found) \<and>
      (\<exists>ext legacy. extension_entries e = Inr ext \<and> found = ext @ legacy \<and>
         (\<forall>c \<in> set found. \<forall>x \<in> set ext.
            toLowerCase (title c) = toLowerCase (title x) \<longrightarrow> c = x))) \<and>
   (\<forall>icon panePath seen.
      toLowerCase (cleanPaneName (basename panePath ''.prefPane'')) \<in> seen \<longrightarrow>
        pane_item e icon panePath seen = (None, seen))"
proof (intro conjI impI)
  assume f: "discoverSystemSettings e = Inr found"
  define icon where "icon = settingsIconDataUrl e"
  from f obtain r1 s1 where a: "appex_source e icon ([], {}) = Inr (r1, s1)"
    by (auto simp: discoverSystemSettings_def Let_def icon_def split: sum.splits)
  obtain r2 s2 where b: "pane_dirs_loop e icon (prefDirs e) (r1, s1) = (r2, s2)"
    by (cases "pane_dirs_loop e icon (prefDirs e) (r1, s1)")
  have ext: "extension_entries e = Inr r1"
    using a by (simp add: extension_entries_def icon_def)
  have all: "found = r2"
    using a b f by (simp add: discoverSystemSettings_def Let_def icon_def [symmetric])
  from appex_source_dedup [OF a]
  have i1: "distinct (map entry_key r1)" "entry_key ` set r1 = s1" by simp_all
  from pane_dirs_loop_dedup [OF i1 b]
  have i2: "distinct (map entry_key r2)" and pre: "\<exists>more. r2 = r1 @ more" by simp_all
  have k: "(\<lambda>c. toLowerCase (title c)) = entry_key"
    by (simp add: entry_key_def fun_eq_iff)
  show "distinct (map (\<lambda>c. toLowerCase (title c)) found)"
    using i2 by (simp add: all k)
  from pre obtain legacy where l: "r2 = r1 @ legacy" ..
  have c3: "\<forall>c \<in> set found. \<forall>x \<in> set r1.
      toLowerCase (title c) = toLowerCase (title x) \<longrightarrow> c = x"
  proof (intro ballI impI)
    fix c x
    assume c: "c \<in> set found" and x: "x \<in> set r1"
      and eq: "toLowerCase (title c) = toLowerCase (title x)"
    from x l have "x \<in> set r2" by simp
    moreover from c have "c \<in> set r2" by (simp add: all)
    moreover have "inj_on entry_key (set r2)"
      using i2 by (simp add: distinct_map)
    moreover have "entry_key c = entry_key x" using eq by (simp add: entry_key_def)
    ultimately show "c = x" by (simp add: inj_on_def)
  qed
  show "\<exists>ext legacy. extension_entries e = Inr ext \<and> found = ext @ legacy \<and>
         (\<forall>c \<in> set found. \<forall>x \<in> set ext.
            toLowerCase (title c) = toLowerCase (title x) \<longrightarrow> c = x)"
    using ext l c3 all by blast
next
  show "\<forall>icon panePath seen.
      toLowerCase (cleanPaneName (basename panePath ''.prefPane'')) \<in> seen \<longrightarrow>
        pane_item e icon panePath seen = (None, seen)"
    by (simp add: pane_item_def Let_def)
qed

text \<open>
  In \<open>both_env\<close> the extension \<open>DisplaysSettings.appex\<close> (display name \<open>Displays\<close>) and the
  pane \<open>Displays.prefPane\<close> claim the key \<open>displays\<close>: the entry that survives carries
  the bundle identifier of the extension, and the pane is skipped.
\<close>

theorem settings_dedup_witness:
  "map_sum id (map path) (discoverSystemSettings both_env) =
     Inr [Some (JStr ''com.apple.Displays-Settings.extension''), Some (JStr ''DateAndTime'')] \<and>
   map_sum id (map path) (extension_entries both_env) =
     Inr [Some (JStr ''com.apple.Displays-Settings.extension'')] \<and>
   map_sum id (\<lambda>found. distinct (map (\<lambda>c. toLowerCase (title c)) found))
     (discoverSystemSettings both_env) = Inr True \<and>
   pane_item both_env None ''/System/Library/PreferencePanes/Displays.prefPane'' {''displays''}
     = (None, {''displays''})"
proof -
  have a: "map_sum id (map path) (discoverSystemSettings both_env) =
     Inr [Some (JStr ''com.apple.Displays-Settings.extension''), Some (JStr ''DateAndTime'')]"
    by code_simp
  have b: "map_sum id (map path) (extension_entries both_env) =
     Inr [Some (JStr ''com.apple.Displays-Settings.extension'')]"
    by code_simp
  from a obtain found where f: "discoverSystemSettings both_env = Inr found"
    by (cases "discoverSystemSettings both_env") auto
  have "discoverSystemSettings both_env = Inr found \<longrightarrow>
      distinct (map (\<lambda>c. toLowerCase (title c)) found) \<and>
      (\<exists>ext legacy. extension_entries both_env = Inr ext \<and> found = ext @ legacy \<and>
         (\<forall>c \<in> set found. \<forall>x \<in> set ext.
            toLowerCase (title c) = toLowerCase (title x) \<longrightarrow> c = x))"
    by (rule settings_dedup [of both_env found, THEN conjunct1])
  with f have "distinct (map (\<lambda>c. toLowerCase (title c)) found)" by blast
  with f have c: "map_sum id (\<lambda>found. distinct (map (\<lambda>c. toLowerCase (title c)) found))
     (discoverSystemSettings both_env) = Inr True"
    by simp
  have k: "toLowerCase (cleanPaneName
             (basename ''/System/Library/PreferencePanes/Displays.prefPane'' ''.prefPane''))
           = ''displays''"
    by code_simp
  have "\<forall>icon panePath seen.
      toLowerCase (cleanPaneName (basename panePath ''.prefPane'')) \<in> seen \<longrightarrow>
        pane_item both_env icon panePath seen = (None, seen)"
    by (rule settings_dedup [of both_env, THEN conjunct2])
  then have d: "pane_item both_env None ''/System/Library/PreferencePanes/Displays.prefPane''
                  {''displays''} = (None, {''displays''})"
    using k by simp
  show ?thesis by (intro conjI) (rule a b c d)+
qed

section \<open>Degradation\<close>






















































end
